theory Spec2Isabelle
  imports Complex_Main
begin

section \<open>Python values, errors and matrices\<close>

text \<open>
  The compiler of \<^verbatim>\<open>src/utils.py\<close> is modelled as pure functions. Every \<^verbatim>\<open>raise\<close>, failed
  assertion, failed lookup and failed call of the source is a value \<open>Inl e\<close> of a sum type;
  a normal return is \<open>Inr v\<close>. Python floats are modelled as \<open>real\<close>.
\<close>

datatype py_error =
    TypeError | ValueError | IndexError | KeyError | StopIteration
  | AssertionError | UserWarning | Exception | LinAlgError

text \<open>
  A two-dimensional array is the list of its rows. A matrix without rows is taken to have
  no columns: \<open>shape1 [] = 0\<close>.
\<close>

type_synonym matrix = "real list list"

definition shape0 :: "matrix \<Rightarrow> nat" where
  "shape0 M = length M"

definition shape1 :: "matrix \<Rightarrow> nat" where
  "shape1 M = (case M of [] \<Rightarrow> 0 | r # _ \<Rightarrow> length r)"

text \<open>\<^verbatim>\<open>np.zeros((n, m))\<close> and \<^verbatim>\<open>np.identity(n)\<close>.\<close>

definition zeros :: "nat \<Rightarrow> nat \<Rightarrow> matrix" where
  "zeros n m = replicate n (replicate m 0)"

definition identity :: "nat \<Rightarrow> matrix" where
  "identity n = map (\<lambda>i. map (\<lambda>j. if i = j then 1 else 0) [0..<n]) [0..<n]"

text \<open>\<^verbatim>\<open>M.T\<close>.\<close>

definition mat_T :: "matrix \<Rightarrow> matrix" where
  "mat_T M = map (\<lambda>j. map (\<lambda>r. r ! j) M) [0..<shape1 M]"

text \<open>\<^verbatim>\<open>A @ B\<close> and \<^verbatim>\<open>np.matmul(A, B)\<close>: a \<open>ValueError\<close> when the inner dimensions differ.\<close>

definition matmul :: "matrix \<Rightarrow> matrix \<Rightarrow> py_error + matrix" where
  "matmul A B =
     (if shape1 A \<noteq> shape0 B then Inl ValueError
      else Inr (map (\<lambda>r. map (\<lambda>j. sum_list (map (\<lambda>k. r ! k * B ! k ! j) [0..<shape0 B]))
                              [0..<shape1 B]) A))"

text \<open>\<^verbatim>\<open>M * c\<close> for a scalar \<open>c\<close>: every entry is multiplied by \<open>c\<close>.\<close>

definition mat_scale :: "matrix \<Rightarrow> real \<Rightarrow> matrix" where
  "mat_scale M c = map (map (\<lambda>x. x * c)) M"

text \<open>
  numpy broadcasting of a two-dimensional array to the shape \<open>(n, m)\<close>: an axis of
  length one is repeated, an axis of any other length must agree.
\<close>

definition broadcast_to :: "nat \<Rightarrow> nat \<Rightarrow> matrix \<Rightarrow> py_error + matrix" where
  "broadcast_to n m M =
     (if (shape0 M = n \<or> shape0 M = 1) \<and> (shape1 M = m \<or> shape1 M = 1)
      then Inr (map (\<lambda>i. map (\<lambda>j. M ! (if shape0 M = 1 then 0 else i)
                                       ! (if shape1 M = 1 then 0 else j)) [0..<m]) [0..<n])
      else Inl ValueError)"

text \<open>\<^verbatim>\<open>A + B\<close> on two-dimensional arrays, with broadcasting.\<close>

definition np_add :: "matrix \<Rightarrow> matrix \<Rightarrow> py_error + matrix" where
  "np_add A B =
     (let n = (if shape0 A = 1 then shape0 B else shape0 A);
          m = (if shape1 A = 1 then shape1 B else shape1 A)
      in case broadcast_to n m A of Inl e \<Rightarrow> Inl e
         | Inr A' \<Rightarrow>
             (case broadcast_to n m B of Inl e \<Rightarrow> Inl e
              | Inr B' \<Rightarrow> Inr (map2 (map2 (+)) A' B')))"

text \<open>\<^verbatim>\<open>A - B\<close> on two arrays of one shape.\<close>

definition mat_sub :: "matrix \<Rightarrow> matrix \<Rightarrow> matrix" where
  "mat_sub A B = map2 (map2 (-)) A B"

section \<open>The numerical library\<close>

text \<open>
  numpy and scipy are not part of the repository. Their functions are parameters of the
  model, collected in one record; each may raise.
  \<^item> \<open>matrix_rank\<close>: \<^verbatim>\<open>np.linalg.matrix_rank\<close>;
  \<^item> \<open>eigh\<close>: the eigenvalues \<^verbatim>\<open>np.linalg.eigh(A)[0]\<close>;
  \<^item> \<open>cholesky\<close>: \<^verbatim>\<open>sp.linalg.cholesky(A, lower=False)\<close>;
  \<^item> \<open>solve_triangular\<close>: \<^verbatim>\<open>sp.linalg.solve_triangular\<close>;
  \<^item> \<open>svd\<close>: the singular values of \<^verbatim>\<open>np.linalg.svd\<close>, the flag is \<^verbatim>\<open>compute_uv\<close>;
  \<^item> \<open>brentq\<close>: \<^verbatim>\<open>sp.optimize.brentq(f, a, b)\<close>, where evaluating \<open>f\<close> may raise;
  \<^item> \<open>qr\<close>: \<^verbatim>\<open>np.linalg.qr\<close>, returning the pair \<open>(Q, R)\<close>.
\<close>

record linalg =
  matrix_rank :: "matrix \<Rightarrow> py_error + nat"
  eigh :: "matrix \<Rightarrow> py_error + real list"
  cholesky :: "matrix \<Rightarrow> py_error + matrix"
  solve_triangular :: "matrix \<Rightarrow> matrix \<Rightarrow> py_error + matrix"
  svd :: "bool \<Rightarrow> matrix \<Rightarrow> py_error + real list"
  brentq :: "(real \<Rightarrow> py_error + real) \<Rightarrow> real \<Rightarrow> real \<Rightarrow> py_error + real"
  qr :: "matrix \<Rightarrow> py_error + matrix \<times> matrix"

section \<open>The degrees-of-freedom solver\<close>

text \<open>
  \<^verbatim>\<open>make_matrix_positive_semi_definite(A, machine_epsilon)\<close>. \<^verbatim>\<open>min\<close> of an empty sequence
  raises \<open>ValueError\<close>. In the repair branch the source computes \<^verbatim>\<open>rho\<close> and the shrunken
  matrix (neither can raise, \<open>1 - min_eigen > 1\<close> there) and then calls
  \<^verbatim>\<open>make_matrix_positive_semi_definite(A)\<close> with one argument: the function has two
  required parameters, so Python raises \<open>TypeError\<close> at the call, before the body runs.
\<close>

definition make_matrix_positive_semi_definite :: "linalg \<Rightarrow> matrix \<Rightarrow> real \<Rightarrow> py_error + matrix" where
  "make_matrix_positive_semi_definite la A machine_epsilon =
     (case eigh la A of Inl e \<Rightarrow> Inl e
      | Inr ev \<Rightarrow>
          if ev = [] then Inl ValueError
          else let min_eigen = Min (set ev) - sqrt machine_epsilon
               in if min_eigen < - (1 / 10 ^ 10) then Inl TypeError else Inr A)"

text \<open>
  \<^verbatim>\<open>dfFun(lam, d, hat1)\<close>. In the branch \<^verbatim>\<open>hat1 == False\<close> the source writes
  \<^verbatim>\<open>sum(1 / (1 + lam * d) ^ 2)\<close>: \<^verbatim>\<open>^\<close> is Python's bitwise exclusive or and binds weaker
  than \<^verbatim>\<open>/\<close>, so it is applied to the float (array) \<^verbatim>\<open>1 / (1 + lam * d)\<close> and the integer
  \<^verbatim>\<open>2\<close>, which raises \<open>TypeError\<close>.
\<close>

definition dfFun :: "real \<Rightarrow> real list \<Rightarrow> bool \<Rightarrow> py_error + real" where
  "dfFun lam d hat1 =
     (if hat1 then Inr (sum_list (map (\<lambda>di. 1 / (1 + lam * di)) d))
      else Inl TypeError)"

text \<open>\<^verbatim>\<open>np.finfo(float).eps * 2\<close>.\<close>

definition machine_epsilon :: real where
  "machine_epsilon = (1 / 2 ^ 52) * 2"

text \<open>
  Lines 182 to 199 of \<^verbatim>\<open>df2lambda\<close>: the singular values \<open>d\<close>. The bare \<^verbatim>\<open>except\<close>
  repeats the computation with \<^verbatim>\<open>compute_uv=True\<close>; a failing matrix product fails
  again there.
\<close>

definition df2lambda_singular_values :: "linalg \<Rightarrow> matrix \<Rightarrow> matrix \<Rightarrow> py_error + real list" where
  "df2lambda_singular_values la dm P =
     (case matmul (mat_T dm) dm of Inl e \<Rightarrow> Inl e
      | Inr XtX \<Rightarrow>
     (case np_add XtX (mat_scale P (1 / 10 ^ 15)) of Inl e \<Rightarrow> Inl e
      | Inr A0 \<Rightarrow>
     (case make_matrix_positive_semi_definite la A0 machine_epsilon of Inl e \<Rightarrow> Inl e
      | Inr A \<Rightarrow>
     (case cholesky la A of Inl e \<Rightarrow> Inl e
      | Inr U \<Rightarrow>
     (case solve_triangular la U (identity (shape1 XtX)) of Inl e \<Rightarrow> Inl e
      | Inr Rm \<Rightarrow>
     (case matmul (mat_T Rm) P of Inl e \<Rightarrow> Inl e
      | Inr RtP \<Rightarrow>
     (case matmul RtP Rm of Inl e \<Rightarrow> Inl e
      | Inr M \<Rightarrow>
     (case svd la False M of Inr d \<Rightarrow> Inr d
      | Inl _ \<Rightarrow> svd la True M))))))))"

text \<open>
  Lines 205 to 221 of \<^verbatim>\<open>df2lambda\<close>: \<open>lam\<close> from a target \<open>df\<close>. Each
  \<^verbatim>\<open>warnings.warn\<close> is preceded by \<^verbatim>\<open>warnings.simplefilter('error')\<close>, which puts the
  action \<^verbatim>\<open>error\<close> for every warning at the front of the filter list: the warning is raised
  as an exception of class \<open>UserWarning\<close> and the statements after it are not reached.
\<close>

definition df2lambda_solve :: "linalg \<Rightarrow> real list \<Rightarrow> real \<Rightarrow> bool \<Rightarrow> real \<Rightarrow> py_error + real \<times> real" where
  "df2lambda_solve la d df hat1 lam_max =
     (if df \<ge> real (length d) then Inr (df, 0)
      else case dfFun lam_max d hat1 of Inl e \<Rightarrow> Inl e
      | Inr df_for_lam_max \<Rightarrow>
          if df_for_lam_max - df > 0 \<and> df_for_lam_max - df > sqrt machine_epsilon
          then Inl UserWarning
          else (case brentq la (\<lambda>l. case dfFun l d hat1 of Inl e \<Rightarrow> Inl e
                                      | Inr v \<Rightarrow> Inr (v - df)) 0 lam_max of
                  Inl e \<Rightarrow> Inl e
                | Inr lam \<Rightarrow>
                    (case dfFun lam d hat1 of Inl e \<Rightarrow> Inl e
                     | Inr v \<Rightarrow>
                         if \<bar>v - df\<bar> > sqrt machine_epsilon then Inl UserWarning
                         else Inr (df, lam))))"

text \<open>
  \<^verbatim>\<open>df2lambda(dm, P, df, lam=None, hat1=True, lam_max=1e+15)\<close>; \<^verbatim>\<open>None\<close> is \<open>None\<close>.
  The result is the pair \<open>(df, lam)\<close>.
\<close>

definition df2lambda ::
  "linalg \<Rightarrow> matrix \<Rightarrow> matrix \<Rightarrow> real option \<Rightarrow> real option \<Rightarrow> bool \<Rightarrow> real \<Rightarrow> py_error + real \<times> real" where
  "df2lambda la dm P df lam hat1 lam_max =
     (if df = None \<and> lam = None then Inl Exception
      else
        case (case df of None \<Rightarrow> Inr ()
              | Some v \<Rightarrow>
                  (case matrix_rank la dm of Inl e \<Rightarrow> Inl e
                   | Inr rank_dm \<Rightarrow> if v \<ge> real rank_dm then Inl UserWarning else Inr ()))
        of Inl e \<Rightarrow> Inl e
        | Inr _ \<Rightarrow>
            if lam = Some 0 then
              (case matrix_rank la dm of Inl e \<Rightarrow> Inl e
               | Inr rank_dm \<Rightarrow> Inr (real rank_dm, 0))
            else
              (case df2lambda_singular_values la dm P of Inl e \<Rightarrow> Inl e
               | Inr d \<Rightarrow>
                   (case lam of
                      Some l \<Rightarrow>
                        (case dfFun l d hat1 of Inl e \<Rightarrow> Inl e | Inr v \<Rightarrow> Inr (v, l))
                    | None \<Rightarrow> df2lambda_solve la d (the df) hat1 lam_max)))"

section \<open>Design matrices\<close>

text \<open>
  patsy is not part of the repository; the objects it returns are modelled by the
  attributes the source reads.

  A stateful transform stored in a factor's state is an instance of the class
  \<^verbatim>\<open>Spline\<close> of \<^verbatim>\<open>utils.py\<close>, with its attribute \<^verbatim>\<open>penalty_matrices\<close>, or an object of
  another class.
\<close>

datatype stateful_transform = SplineTransform "matrix list" | OtherTransform

text \<open>
  \<^verbatim>\<open>factor_info\<close>: \<open>factor_name\<close> is \<^verbatim>\<open>factor_info.factor.name()\<close>, \<open>pass_bins\<close> is
  \<^verbatim>\<open>factor_info.state['pass_bins']\<close> (a list of sets of object names, each set as the list
  of its iteration order) and \<open>transforms\<close> is \<^verbatim>\<open>factor_info.state['transforms']\<close>.
\<close>

record factor_info =
  factor_name :: string
  num_columns :: nat
  pass_bins :: "string list list"
  transforms :: "string \<rightharpoonup> stateful_transform"

text \<open>A term: \<^verbatim>\<open>term.name()\<close> and \<^verbatim>\<open>term.factors\<close>, a factor being the key of its info.\<close>

record patsy_term =
  term_name :: string
  factors :: "string list"

text \<open>
  A design matrix as a data frame: its values, and of its \<^verbatim>\<open>design_info\<close> the terms, the
  factor infos and the column slice \<^verbatim>\<open>slice(start, stop)\<close> of every term name.
\<close>

record design_matrix =
  dm_values :: matrix
  terms :: "patsy_term list"
  factor_infos :: "string \<rightharpoonup> factor_info"
  term_name_slices :: "string \<rightharpoonup> nat \<times> nat"

text \<open>\<^verbatim>\<open>sub in s\<close> on strings.\<close>

fun str_contains :: "string \<Rightarrow> string \<Rightarrow> bool" where
  "str_contains sub [] = (sub = [])"
| "str_contains sub (c # s) = (take (length sub) (c # s) = sub \<or> str_contains sub s)"

text \<open>
  \<^verbatim>\<open>df.iloc[:, slice(a, b)]\<close>: the columns \<open>a\<close> to \<open>b - 1\<close>, cut at the frame's width as
  Python slices are.
\<close>

definition iloc_cols :: "matrix \<Rightarrow> nat \<times> nat \<Rightarrow> matrix" where
  "iloc_cols M sl = map (\<lambda>r. take (snd sl - fst sl) (drop (fst sl) r)) M"

text \<open>
  \<^verbatim>\<open>B[slice(a, b), slice(a, b)] = V\<close> on an array \<open>B\<close>: the slice is cut at the length of
  each axis, and \<open>V\<close> is broadcast to the shape of the block.
\<close>

definition set_block :: "matrix \<Rightarrow> nat \<times> nat \<Rightarrow> matrix \<Rightarrow> py_error + matrix" where
  "set_block B sl V =
     (let r0 = min (fst sl) (shape0 B); r1 = max r0 (min (snd sl) (shape0 B));
          c0 = min (fst sl) (shape1 B); c1 = max c0 (min (snd sl) (shape1 B))
      in case broadcast_to (r1 - r0) (c1 - c0) V of Inl e \<Rightarrow> Inl e
         | Inr V' \<Rightarrow>
             Inr (map (\<lambda>i. map (\<lambda>j. if r0 \<le> i \<and> i < r1 \<and> c0 \<le> j \<and> j < c1
                                     then V' ! (i - r0) ! (j - c0) else B ! i ! j)
                              [0..<shape1 B]) [0..<shape0 B]))"

section \<open>The penalty assembler\<close>

text \<open>
  \<^verbatim>\<open>_get_penalty_matrix_from_factor_info(factor_info)\<close>: \<open>Inr None\<close> is the return value
  \<^verbatim>\<open>False\<close>. \<^verbatim>\<open>state['pass_bins'][-1]\<close> raises \<open>IndexError\<close> on an empty list,
  \<^verbatim>\<open>next(iter(...))\<close> raises \<open>StopIteration\<close> on an empty set, and the lookup in
  \<^verbatim>\<open>state['transforms']\<close> raises \<open>KeyError\<close>.
\<close>

definition get_penalty_matrix_from_factor_info :: "factor_info \<Rightarrow> py_error + matrix list option" where
  "get_penalty_matrix_from_factor_info fi =
     (if \<not> str_contains ''spline'' (factor_name fi) then Inr None
      else if pass_bins fi = [] then Inl IndexError
      else let outer_objects_in_factor = last (pass_bins fi)
           in if outer_objects_in_factor = [] then Inl StopIteration
              else let obj_name = hd outer_objects_in_factor
                   in case transforms fi obj_name of None \<Rightarrow> Inl KeyError
                      | Some obj \<Rightarrow>
                          (case obj of
                             SplineTransform penalty_matrices \<Rightarrow>
                               if length (remdups outer_objects_in_factor) = 1
                               then Inr (Some penalty_matrices) else Inr None
                           | OtherTransform \<Rightarrow> Inr None))"

text \<open>
  The degrees of freedom of one distribution parameter: a single number or a Python list.
\<close>

datatype dfs = DfScalar real | DfList "real list"

text \<open>
  The body of the loop of \<^verbatim>\<open>_get_P_from_design_matrix\<close> for one term, on the state
  \<open>(big_P, spline_counter)\<close>. The source also counts columns in \<^verbatim>\<open>column_counter\<close>, a
  variable it never reads. \<^verbatim>\<open>dfs[spline_counter]\<close> and \<^verbatim>\<open>P[0]\<close> raise \<open>IndexError\<close> out of
  range; \<^verbatim>\<open>df2lambda\<close> is called with the defaults \<^verbatim>\<open>lam=None, hat1=True, lam_max=1e+15\<close>.
\<close>

definition penalty_step ::
  "linalg \<Rightarrow> design_matrix \<Rightarrow> dfs \<Rightarrow> patsy_term \<Rightarrow> matrix \<times> nat \<Rightarrow> py_error + matrix \<times> nat" where
  "penalty_step la dm dfs t s =
     (case term_name_slices dm (term_name t) of None \<Rightarrow> Inl KeyError
      | Some slice_of_term \<Rightarrow>
          if length (factors t) = 1 then
            (case factor_infos dm (factors t ! 0) of None \<Rightarrow> Inl KeyError
             | Some fi \<Rightarrow>
            (case get_penalty_matrix_from_factor_info fi of Inl e \<Rightarrow> Inl e
             | Inr None \<Rightarrow> Inr s
             | Inr (Some P) \<Rightarrow>
            (case (case dfs of
                     DfList l \<Rightarrow> if snd s < length l then Inr (l ! snd s) else Inl IndexError
                   | DfScalar v \<Rightarrow> Inr v) of Inl e \<Rightarrow> Inl e
             | Inr df \<Rightarrow>
                 if P = [] then Inl IndexError
                 else
            (case df2lambda la (iloc_cols (dm_values dm) slice_of_term) (P ! 0) (Some df) None
                    True (10 ^ 15) of Inl e \<Rightarrow> Inl e
             | Inr df_lam \<Rightarrow>
            (case set_block (fst s) slice_of_term (mat_scale (P ! 0) (snd df_lam)) of
               Inl e \<Rightarrow> Inl e
             | Inr big_P \<Rightarrow> Inr (big_P, snd s + 1))))))
          else Inr s)"

fun penalty_loop ::
  "linalg \<Rightarrow> design_matrix \<Rightarrow> dfs \<Rightarrow> patsy_term list \<Rightarrow> matrix \<times> nat \<Rightarrow> py_error + matrix \<times> nat" where
  "penalty_loop la dm dfs [] s = Inr s"
| "penalty_loop la dm dfs (t # ts) s =
     (case penalty_step la dm dfs t s of Inl e \<Rightarrow> Inl e
      | Inr s' \<Rightarrow> penalty_loop la dm dfs ts s')"

text \<open>
  \<^verbatim>\<open>_get_P_from_design_matrix(dm, data, dfs)\<close>; the source does not use \<^verbatim>\<open>data\<close>.
\<close>

definition get_P_from_design_matrix :: "linalg \<Rightarrow> design_matrix \<Rightarrow> dfs \<Rightarrow> py_error + matrix" where
  "get_P_from_design_matrix la dm dfs =
     (case penalty_loop la dm dfs (terms dm)
             (zeros (shape1 (dm_values dm)) (shape1 (dm_values dm)), 0) of
        Inl e \<Rightarrow> Inl e
      | Inr s \<Rightarrow> Inr (fst s))"

section \<open>Term classification and orthogonalization\<close>

text \<open>
  The dictionaries \<^verbatim>\<open>spline_info\<close> and \<^verbatim>\<open>non_spline_info\<close> hold three lists each, under
  the keys \<^verbatim>\<open>list_of_[non_]spline_slices\<close>, \<^verbatim>\<open>list_of_[non_]spline_input_features\<close> and
  \<^verbatim>\<open>list_of_term_names\<close>.
\<close>

record term_info =
  list_of_slices :: "(nat \<times> nat) list"
  list_of_input_features :: "string list list"
  list_of_term_names :: "string list"

text \<open>
  \<^verbatim>\<open>_get_input_features_for_functional_expression\<close>: the parameter \<open>co_names\<close> is
  \<^verbatim>\<open>parser.expr(e).compile().co_names\<close> of the Python library. The source builds the
  result from Python sets, whose order is not specified; the model lists the names in the
  order of \<open>co_names\<close>, and the source later reads the result as a set only.
\<close>

definition get_input_features_for_functional_expression ::
  "(string \<Rightarrow> py_error + string list) \<Rightarrow> string \<Rightarrow> string list \<Rightarrow> py_error + string list" where
  "get_input_features_for_functional_expression co_names functional_expression feature_names =
     (case co_names functional_expression of Inl e \<Rightarrow> Inl e
      | Inr names \<Rightarrow> Inr (filter (\<lambda>n. n \<in> set feature_names) (remdups names)))"

text \<open>\<^verbatim>\<open>_get_all_input_features_for_term\<close>: the loop over the factors, on the set built so far.\<close>

fun input_features_loop ::
  "(string \<Rightarrow> py_error + string list) \<Rightarrow> string list \<Rightarrow> string list \<Rightarrow> string list
     \<Rightarrow> py_error + string list" where
  "input_features_loop co_names [] feature_names input_features_term = Inr input_features_term"
| "input_features_loop co_names (factor # fs) feature_names input_features_term =
     (case get_input_features_for_functional_expression co_names factor feature_names of
        Inl e \<Rightarrow> Inl e
      | Inr input_features_factor \<Rightarrow>
          input_features_loop co_names fs feature_names
            (remdups (input_features_term @ input_features_factor)))"

definition get_all_input_features_for_term ::
  "(string \<Rightarrow> py_error + string list) \<Rightarrow> patsy_term \<Rightarrow> string list \<Rightarrow> py_error + string list" where
  "get_all_input_features_for_term co_names t feature_names =
     input_features_loop co_names (factors t) feature_names []"

text \<open>
  \<^verbatim>\<open>_get_info_from_design_matrix\<close>: the loop over the terms, on the pair
  \<open>(spline_info, non_spline_info)\<close>.
\<close>

definition append_term_info :: "term_info \<Rightarrow> string list \<Rightarrow> nat \<times> nat \<Rightarrow> string \<Rightarrow> term_info" where
  "append_term_info info feats sl name =
     \<lparr>list_of_slices = list_of_slices info @ [sl],
      list_of_input_features = list_of_input_features info @ [feats],
      list_of_term_names = list_of_term_names info @ [name]\<rparr>"

fun info_loop ::
  "(string \<Rightarrow> py_error + string list) \<Rightarrow> design_matrix \<Rightarrow> string list \<Rightarrow> patsy_term list
     \<Rightarrow> term_info \<times> term_info \<Rightarrow> py_error + term_info \<times> term_info" where
  "info_loop co_names sm feature_names [] infos = Inr infos"
| "info_loop co_names sm feature_names (t # ts) infos =
     (case get_all_input_features_for_term co_names t feature_names of Inl e \<Rightarrow> Inl e
      | Inr feature_names_spline \<Rightarrow>
          (case term_name_slices sm (term_name t) of None \<Rightarrow> Inl KeyError
           | Some slice_of_term \<Rightarrow>
               if str_contains ''spline'' (term_name t)
               then info_loop co_names sm feature_names ts
                      (append_term_info (fst infos) feature_names_spline slice_of_term (term_name t),
                       snd infos)
               else info_loop co_names sm feature_names ts
                      (fst infos,
                       append_term_info (snd infos) feature_names_spline slice_of_term (term_name t))))"

definition empty_term_info :: term_info where
  "empty_term_info = \<lparr>list_of_slices = [], list_of_input_features = [], list_of_term_names = []\<rparr>"

definition get_info_from_design_matrix ::
  "(string \<Rightarrow> py_error + string list) \<Rightarrow> design_matrix \<Rightarrow> string list
     \<Rightarrow> py_error + term_info \<times> term_info" where
  "get_info_from_design_matrix co_names structured_matrix feature_names =
     info_loop co_names structured_matrix feature_names (terms structured_matrix)
       (empty_term_info, empty_term_info)"

text \<open>
  \<^verbatim>\<open>_orthogonalize(constraints, X)\<close>: of \<^verbatim>\<open>np.linalg.qr\<close> only \<open>Q\<close> is used.
\<close>

definition orthogonalize :: "linalg \<Rightarrow> matrix \<Rightarrow> matrix \<Rightarrow> py_error + matrix" where
  "orthogonalize la constraints X =
     (case qr la constraints of Inl e \<Rightarrow> Inl e
      | Inr QR \<Rightarrow>
     (case matmul (fst QR) (mat_T (fst QR)) of Inl e \<Rightarrow> Inl e
      | Inr Projection_Matrix \<Rightarrow>
     (case matmul Projection_Matrix X of Inl e \<Rightarrow> Inl e
      | Inr PX \<Rightarrow> Inr (mat_sub X PX))))"

text \<open>
  \<^verbatim>\<open>np.concatenate(blocks, axis=1)\<close> of a non-empty list of arrays: a \<open>ValueError\<close> when the
  numbers of rows differ.
\<close>

definition concatenate_axis1 :: "matrix list \<Rightarrow> py_error + matrix" where
  "concatenate_axis1 blocks =
     (case blocks of [] \<Rightarrow> Inl ValueError
      | B # _ \<Rightarrow>
          if \<forall>C \<in> set blocks. shape0 C = shape0 B
          then Inr (map (\<lambda>i. concat (map (\<lambda>C. C ! i) blocks)) [0..<shape0 B])
          else Inl ValueError)"

text \<open>
  \<^verbatim>\<open>df.iloc[:, slice(a, b)] = V\<close> on a data frame: the slice is cut at the frame's width and
  \<open>V\<close> has to have the shape of the block (it is the block minus its projection here).
\<close>

definition set_iloc_cols :: "matrix \<Rightarrow> nat \<times> nat \<Rightarrow> matrix \<Rightarrow> py_error + matrix" where
  "set_iloc_cols M sl V =
     (let c0 = min (fst sl) (shape1 M); c1 = max c0 (min (snd sl) (shape1 M))
      in if shape0 V = shape0 M \<and> (\<forall>r \<in> set V. length r = c1 - c0)
         then Inr (map (\<lambda>i. take c0 (M ! i) @ V ! i @ drop c1 (M ! i)) [0..<shape0 M])
         else Inl ValueError)"

text \<open>
  \<^verbatim>\<open>_orthogonalize_spline_wrt_non_splines\<close>: the outer loop runs over
  \<^verbatim>\<open>zip(slices, input_features)\<close> of the spline terms and updates the frame in place; the
  model returns the updated values.
\<close>

fun orthogonalize_loop ::
  "linalg \<Rightarrow> ((nat \<times> nat) \<times> string list) list \<Rightarrow> ((nat \<times> nat) \<times> string list) list \<Rightarrow> matrix
     \<Rightarrow> py_error + matrix" where
  "orthogonalize_loop la [] non_splines M = Inr M"
| "orthogonalize_loop la (sp # rest) non_splines M =
     (let X = iloc_cols M (fst sp);
          constraints = map (\<lambda>ns. iloc_cols M (fst ns))
                          (filter (\<lambda>ns. set (snd ns) \<subseteq> set (snd sp)) non_splines)
      in if length constraints > 0 then
           (case concatenate_axis1 constraints of Inl e \<Rightarrow> Inl e
            | Inr C \<Rightarrow>
           (case orthogonalize la C X of Inl e \<Rightarrow> Inl e
            | Inr constrained_X \<Rightarrow>
           (case set_iloc_cols M (fst sp) constrained_X of Inl e \<Rightarrow> Inl e
            | Inr M' \<Rightarrow> orthogonalize_loop la rest non_splines M')))
         else orthogonalize_loop la rest non_splines M)"

definition orthogonalize_spline_wrt_non_splines ::
  "linalg \<Rightarrow> matrix \<Rightarrow> term_info \<Rightarrow> term_info \<Rightarrow> py_error + matrix" where
  "orthogonalize_spline_wrt_non_splines la structured_matrix spline_info non_spline_info =
     orthogonalize_loop la
       (zip (list_of_slices spline_info) (list_of_input_features spline_info))
       (zip (list_of_slices non_spline_info) (list_of_input_features non_spline_info))
       structured_matrix"

section \<open>Formulas\<close>

text \<open>
  A Python dictionary with string keys is the list of its items in insertion order;
  \<open>dict_set\<close> is the assignment \<^verbatim>\<open>d[k] = v\<close>, \<open>map_of\<close> the lookup.
\<close>

fun dict_set :: "'k \<Rightarrow> 'v \<Rightarrow> ('k \<times> 'v) list \<Rightarrow> ('k \<times> 'v) list" where
  "dict_set k v [] = [(k, v)]"
| "dict_set k v (kv # kvs) = (if fst kv = k then (k, v) # kvs else kv # dict_set k v kvs)"

text \<open>\<^verbatim>\<open>s.split(c)\<close> for a separator of one character, and \<^verbatim>\<open>sep.join(parts)\<close>.\<close>

fun split_on :: "char \<Rightarrow> string \<Rightarrow> string list" where
  "split_on c [] = [[]]"
| "split_on c (x # xs) =
     (if x = c then [] # split_on c xs
      else (case split_on c xs of [] \<Rightarrow> [[x]] | w # ws \<Rightarrow> (x # w) # ws))"

fun join_with :: "string \<Rightarrow> string list \<Rightarrow> string" where
  "join_with sep [] = []"
| "join_with sep [p] = p"
| "join_with sep (p # q # ps) = p @ sep @ join_with sep (q # ps)"

text \<open>
  \<^verbatim>\<open>_checkups(params, formulas)\<close>: the loop over \<open>params\<close>, on the dictionary
  \<open>new_formulas\<close>. The message it prints is not modelled.
\<close>

fun checkups_loop :: "string list \<Rightarrow> (string \<rightharpoonup> string) \<Rightarrow> (string \<times> string) list \<Rightarrow> (string \<times> string) list" where
  "checkups_loop [] formulas new_formulas = new_formulas"
| "checkups_loop (param # ps) formulas new_formulas =
     checkups_loop ps formulas
       (case formulas param of
          Some f \<Rightarrow> dict_set param f new_formulas
        | None \<Rightarrow> dict_set param ''~0'' new_formulas)"

definition checkups :: "string list \<Rightarrow> (string \<rightharpoonup> string) \<Rightarrow> (string \<times> string) list" where
  "checkups params formulas = checkups_loop params formulas []"

text \<open>
  \<^verbatim>\<open>_split_formula(formula, net_names_list)\<close>: the loop appends every part to one of two
  lists, which are the two filters of the parts.
\<close>

definition split_formula :: "string \<Rightarrow> string list \<Rightarrow> string \<times> string list" where
  "split_formula formula net_names_list =
     (let formula1 = filter (\<lambda>c. c \<noteq> CHR '' '') formula;
          formula2 = filter (\<lambda>c. c \<noteq> CHR ''~'') formula1;
          formula_parts = split_on CHR ''+'' formula2;
          unstructured = (\<lambda>part. hd (split_on CHR ''('' part) \<in> set net_names_list)
      in (join_with ''+'' (filter (\<lambda>part. \<not> unstructured part) formula_parts),
          filter unstructured formula_parts))"

section \<open>The entry point\<close>

text \<open>
  The data frame \<^verbatim>\<open>data\<close>: its number of rows and its columns by name, the names being
  distinct and every column holding one entry per row.
  \<^verbatim>\<open>data[names].to_numpy()\<close> raises \<open>KeyError\<close> for a name that is no column.
\<close>

record data_frame =
  df_nrows :: nat
  df_columns :: "(string \<times> real list) list"

definition select_to_numpy :: "data_frame \<Rightarrow> string list \<Rightarrow> py_error + matrix" where
  "select_to_numpy data names =
     (if \<forall>n \<in> set names. map_of (df_columns data) n \<noteq> None
      then Inr (map (\<lambda>i. map (\<lambda>n. the (map_of (df_columns data) n) ! i) names)
                  [0..<df_nrows data])
      else Inl KeyError)"

text \<open>
  An entry of \<^verbatim>\<open>deep_models_dict\<close>: the model, a handle or a string to be evaluated, and
  the output shape.
\<close>

datatype 'h model_spec = ModelString string | ModelHandle 'h

record 'h deep_model =
  model :: "'h model_spec"
  output_shape :: nat

text \<open>
  What \<^verbatim>\<open>parse_formulas\<close> stores for one parameter: \<^verbatim>\<open>parsed_formula_contents[param]\<close>
  as a record (\<open>pfc_P\<close> is the entry \<^verbatim>\<open>'P'\<close>), \<^verbatim>\<open>meta_datadict[param]\<close> as a dictionary of
  matrices.
\<close>

record 'h parsed_formula_content =
  struct_shapes :: nat
  pfc_P :: matrix
  deep_models_dict :: "(string \<times> 'h) list"
  deep_shapes :: "(string \<times> nat) list"

text \<open>
  The functions of Python and patsy that \<^verbatim>\<open>parse_formulas\<close> calls, as parameters:
  \<^item> \<open>dmatrix\<close>: \<^verbatim>\<open>patsy.dmatrix(formula, data, return_type='dataframe')\<close>;
  \<^item> \<open>co_names\<close>: see above;
  \<^item> \<open>py_eval\<close>: the builtin \<^verbatim>\<open>eval\<close> on a model string.
\<close>

record 'h python_env =
  dmatrix :: "string \<Rightarrow> data_frame \<Rightarrow> py_error + design_matrix"
  co_names :: "string \<Rightarrow> py_error + string list"
  py_eval :: "string \<Rightarrow> py_error + 'h"

text \<open>
  The loop over the unstructured terms, on the pair of \<^verbatim>\<open>meta_datadict[param]\<close> and
  \<^verbatim>\<open>parsed_formula_contents[param]\<close>. \<^verbatim>\<open>term_split[1]\<close> raises \<open>IndexError\<close> for a term
  without parenthesis.
\<close>

fun unstructured_loop ::
  "'h python_env \<Rightarrow> data_frame \<Rightarrow> (string \<times> 'h deep_model) list \<Rightarrow> string list
     \<Rightarrow> (string \<times> matrix) list \<times> 'h parsed_formula_content
     \<Rightarrow> py_error + (string \<times> matrix) list \<times> 'h parsed_formula_content" where
  "unstructured_loop env data dmd [] s = Inr s"
| "unstructured_loop env data dmd (t # ts) s =
     (let term_split = split_on CHR ''('' t; net_name = term_split ! 0
      in if length term_split < 2 then Inl IndexError
         else
           let feature_names = hd (split_on CHR '')'' (term_split ! 1));
               feature_names_list = split_on CHR '','' feature_names
           in case select_to_numpy data feature_names_list of Inl e \<Rightarrow> Inl e
              | Inr unstructured_data \<Rightarrow>
                  (case map_of dmd net_name of None \<Rightarrow> Inl KeyError
                   | Some m \<Rightarrow>
                       (case (case model m of ModelString code \<Rightarrow> py_eval env code
                              | ModelHandle h \<Rightarrow> Inr h) of Inl e \<Rightarrow> Inl e
                        | Inr h \<Rightarrow>
                            unstructured_loop env data dmd ts
                              (dict_set net_name unstructured_data (fst s),
                               (snd s)\<lparr>deep_models_dict := dict_set net_name h (deep_models_dict (snd s)),
                                        deep_shapes := dict_set net_name (output_shape m)
                                                         (deep_shapes (snd s))\<rparr>))))"

text \<open>
  The body of the loop of \<^verbatim>\<open>parse_formulas\<close> for one parameter with its formula: the
  entries of \<^verbatim>\<open>parsed_formula_contents\<close>, \<^verbatim>\<open>meta_datadict\<close> and \<^verbatim>\<open>dm_info_dict\<close> for it.
  \<^verbatim>\<open>degrees_of_freedom[param]\<close> raises \<open>KeyError\<close> for a missing parameter.
\<close>

definition parse_param ::
  "linalg \<Rightarrow> 'h python_env \<Rightarrow> data_frame \<Rightarrow> (string \<times> 'h deep_model) list
     \<Rightarrow> (string \<rightharpoonup> dfs) \<Rightarrow> string \<Rightarrow> string
     \<Rightarrow> py_error + 'h parsed_formula_content \<times> (string \<times> matrix) list \<times> term_info" where
  "parse_param la env data dmd degrees_of_freedom param formula =
     (case degrees_of_freedom param of None \<Rightarrow> Inl KeyError
      | Some dfs \<Rightarrow>
     (let split = split_formula formula (map fst dmd);
          structured_part = (if fst split = [] then ''~0'' else fst split);
          unstructured_terms = snd split
      in case dmatrix env structured_part data of Inl e \<Rightarrow> Inl e
      | Inr structured_matrix \<Rightarrow>
     (case get_info_from_design_matrix (co_names env) structured_matrix
             (map fst (df_columns data)) of Inl e \<Rightarrow> Inl e
      | Inr infos \<Rightarrow>
     (case get_P_from_design_matrix la structured_matrix dfs of Inl e \<Rightarrow> Inl e
      | Inr big_P \<Rightarrow>
     (case orthogonalize_spline_wrt_non_splines la (dm_values structured_matrix)
             (fst infos) (snd infos) of Inl e \<Rightarrow> Inl e
      | Inr structured \<Rightarrow>
     (case unstructured_loop env data dmd unstructured_terms
             ([(''structured'', structured)],
              \<lparr>struct_shapes = shape1 structured, pfc_P = big_P,
               deep_models_dict = [], deep_shapes = []\<rparr>) of Inl e \<Rightarrow> Inl e
      | Inr s \<Rightarrow> Inr (snd s, fst s, fst infos)))))))"

text \<open>
  \<^verbatim>\<open>parse_formulas(family, formulas, data, deep_models_dict, degrees_of_freedom)\<close>, where
  \<open>params\<close> is \<^verbatim>\<open>family.get_params()\<close>: the loop over the items of the checked formulas,
  on the three dictionaries returned. An exception leaves the function with no result.
\<close>

fun parse_loop ::
  "linalg \<Rightarrow> 'h python_env \<Rightarrow> data_frame \<Rightarrow> (string \<times> 'h deep_model) list
     \<Rightarrow> (string \<rightharpoonup> dfs) \<Rightarrow> (string \<times> string) list
     \<Rightarrow> (string \<times> 'h parsed_formula_content) list \<times> (string \<times> (string \<times> matrix) list) list
          \<times> (string \<times> term_info) list
     \<Rightarrow> py_error + (string \<times> 'h parsed_formula_content) list
          \<times> (string \<times> (string \<times> matrix) list) list \<times> (string \<times> term_info) list" where
  "parse_loop la env data dmd degrees_of_freedom [] out = Inr out"
| "parse_loop la env data dmd degrees_of_freedom (pf # pfs) out =
     (case parse_param la env data dmd degrees_of_freedom (fst pf) (snd pf) of Inl e \<Rightarrow> Inl e
      | Inr r \<Rightarrow>
          parse_loop la env data dmd degrees_of_freedom pfs
            (dict_set (fst pf) (fst r) (fst out),
             dict_set (fst pf) (fst (snd r)) (fst (snd out)),
             dict_set (fst pf) (snd (snd r)) (snd (snd out))))"

definition parse_formulas ::
  "linalg \<Rightarrow> 'h python_env \<Rightarrow> string list \<Rightarrow> (string \<rightharpoonup> string) \<Rightarrow> data_frame
     \<Rightarrow> (string \<times> 'h deep_model) list \<Rightarrow> (string \<rightharpoonup> dfs)
     \<Rightarrow> py_error + (string \<times> 'h parsed_formula_content) list
          \<times> (string \<times> (string \<times> matrix) list) list \<times> (string \<times> term_info) list" where
  "parse_formulas la env params formulas data dmd degrees_of_freedom =
     parse_loop la env data dmd degrees_of_freedom (checkups params formulas) ([], [], [])"

section \<open>Notions used in the statements\<close>

text \<open>A matrix of \<open>n\<close> rows that all have length \<open>m\<close>.\<close>

definition has_shape :: "nat \<Rightarrow> nat \<Rightarrow> matrix \<Rightarrow> bool" where
  "has_shape n m M = (length M = n \<and> (\<forall>r \<in> set M. length r = m))"

text \<open>The position \<open>(i, j)\<close> lies in the diagonal block of the slice \<open>sl\<close>.\<close>

definition in_block :: "nat \<times> nat \<Rightarrow> nat \<Rightarrow> nat \<Rightarrow> bool" where
  "in_block sl i j = (fst sl \<le> i \<and> i < snd sl \<and> fst sl \<le> j \<and> j < snd sl)"

definition slices_disjoint :: "nat \<times> nat \<Rightarrow> nat \<times> nat \<Rightarrow> bool" where
  "slices_disjoint s t = (snd s \<le> fst t \<or> snd t \<le> fst s)"

text \<open>The column slice of a term, \<open>(0, 0)\<close> for a term without one.\<close>

definition term_slice :: "design_matrix \<Rightarrow> patsy_term \<Rightarrow> nat \<times> nat" where
  "term_slice dm t = (case term_name_slices dm (term_name t) of Some sl \<Rightarrow> sl | None \<Rightarrow> (0, 0))"

text \<open>
  The unpenalized roughness matrix \<^verbatim>\<open>P[0]\<close> of a term that the assembler penalises: a
  term of exactly one factor whose factor info yields the penalty matrices of a
  \<^verbatim>\<open>Spline\<close> object.
\<close>

definition penalty_of_term :: "design_matrix \<Rightarrow> patsy_term \<Rightarrow> matrix option" where
  "penalty_of_term dm t =
     (if length (factors t) = 1 then
        (case factor_infos dm (factors t ! 0) of None \<Rightarrow> None
         | Some fi \<Rightarrow>
             (case get_penalty_matrix_from_factor_info fi of
                Inr (Some (P0 # _)) \<Rightarrow> Some P0
              | _ \<Rightarrow> None))
      else None)"

definition penalised_terms :: "design_matrix \<Rightarrow> patsy_term list \<Rightarrow> patsy_term list" where
  "penalised_terms dm ts = filter (\<lambda>t. penalty_of_term dm t \<noteq> None) ts"

text \<open>
  The degrees of freedom requested for the \<open>k\<close>-th penalised term: the scalar, or the
  \<open>k\<close>-th entry of the list.
\<close>

definition df_request :: "dfs \<Rightarrow> nat \<Rightarrow> real option" where
  "df_request dfs k =
     (case dfs of DfScalar v \<Rightarrow> Some v
      | DfList l \<Rightarrow> if k < length l then Some (l ! k) else None)"

section \<open>Reference inputs\<close>

text \<open>
  \<^verbatim>\<open>sp.optimize.brentq(f, a, b)\<close> raises \<open>ValueError\<close> unless \<open>f a\<close> and \<open>f b\<close> differ in
  sign, and at its default tolerance returns a point within \<open>xtol = 2e-12\<close> of a change of
  sign. A reference library is given one point \<open>r\<close>: it returns \<open>r\<close> when the function
  changes sign between \<open>r - 2e-12\<close> and \<open>r + 2e-12\<close>, inside the bracket, and knows no
  other problem.
\<close>

definition brentq_near :: "real \<Rightarrow> (real \<Rightarrow> py_error + real) \<Rightarrow> real \<Rightarrow> real \<Rightarrow> py_error + real" where
  "brentq_near r f a b =
     (case f a of Inl e \<Rightarrow> Inl e
      | Inr fa \<Rightarrow>
     (case f b of Inl e \<Rightarrow> Inl e
      | Inr fb \<Rightarrow>
          if fa = 0 then Inr a
          else if fb = 0 then Inr b
          else if fa * fb > 0 then Inl ValueError
          else
     (case f (r - 2 / 10 ^ 12) of Inl e \<Rightarrow> Inl e
      | Inr u \<Rightarrow>
     (case f (r + 2 / 10 ^ 12) of Inl e \<Rightarrow> Inl e
      | Inr v \<Rightarrow>
          if a \<le> r - 2 / 10 ^ 12 \<and> r + 2 / 10 ^ 12 \<le> b \<and> u * v < 0 then Inr r
          else Inl ValueError))))"

text \<open>
  The numerical library on matrices of one row and one column, in exact arithmetic. Its
  \<open>brentq\<close> knows the problem \<^verbatim>\<open>df2lambda([[1.]], [[1.]], df=0.5)\<close>, whose root
  \<open>1 + 1e-15\<close> lies within \<open>xtol\<close> of \<open>1\<close>.
\<close>

definition lib_1x1 :: linalg where
  "lib_1x1 =
     \<lparr>matrix_rank = (\<lambda>M. case M of [[a]] \<Rightarrow> Inr (if a = 0 then 0 else 1) | _ \<Rightarrow> Inl LinAlgError),
      eigh = (\<lambda>M. case M of [[a]] \<Rightarrow> Inr [a] | _ \<Rightarrow> Inl LinAlgError),
      cholesky = (\<lambda>M. case M of [[a]] \<Rightarrow> if a > 0 then Inr [[sqrt a]] else Inl LinAlgError
                      | _ \<Rightarrow> Inl LinAlgError),
      solve_triangular = (\<lambda>U B. case (U, B) of ([[u]], [[b]]) \<Rightarrow>
                                    if u = 0 then Inl LinAlgError else Inr [[b / u]]
                                  | _ \<Rightarrow> Inl LinAlgError),
      svd = (\<lambda>uv M. case M of [[a]] \<Rightarrow> Inr [\<bar>a\<bar>] | _ \<Rightarrow> Inl LinAlgError),
      brentq = brentq_near 1,
      qr = (\<lambda>M. case M of [[a]] \<Rightarrow> Inr ([[if a < 0 then - 1 else 1]], [[\<bar>a\<bar>]])
                | _ \<Rightarrow> Inl LinAlgError)\<rparr>"

text \<open>
  The reference spline is the quadratic B-spline \<^verbatim>\<open>spline(x1, bs="bs", df=3, degree=2)\<close> on
  the observations \<open>x1 = 0, 1/2, 1\<close>. Without inner knots its basis functions are
  \<open>(1 - x)\<^sup>2\<close>, \<open>2 x (1 - x)\<close> and \<open>x\<^sup>2\<close>; \<open>basis_ref\<close> holds their values at the
  observations. Their second derivatives are the constants \<open>2\<close>, \<open>-4\<close> and \<open>2\<close>, and the
  penalty matrix \<open>penalty_ref\<close> holds the integrals over \<open>[0, 1]\<close> of their products.
  \<open>interaction_cols_ref\<close> are the columns of the interaction of the spline with the feature
  \<open>x2 = 1, -1, 1\<close>: every row of the basis is multiplied by the observation of \<open>x2\<close>.
\<close>

definition spline_q :: string where
  "spline_q = ''spline(x1, bs=\"bs\", df=3, degree=2)''"

definition basis_ref :: matrix where
  "basis_ref = [[1, 0, 0], [1 / 4, 1 / 2, 1 / 4], [0, 0, 1]]"

definition interaction_cols_ref :: matrix where
  "interaction_cols_ref = [[1, 0, 0], [- 1 / 4, - 1 / 2, - 1 / 4], [0, 0, 1]]"

definition penalty_ref :: matrix where
  "penalty_ref = [[4, - 8, 4], [- 8, 16, - 8], [4, - 8, 4]]"

text \<open>
  What the library computes in \<^verbatim>\<open>df2lambda\<close> on these inputs, in the order of the calls.
  Both column blocks have the rank 3 and the same matrix \<^verbatim>\<open>XtX\<close>, so \<^verbatim>\<open>A\<close> is \<open>gram_ref\<close> for
  both. The eigenvalues of \<open>gram_ref\<close>, its upper Cholesky factor and the inverse of that
  factor are irrational and given to 17 significant digits; numpy returns them with
  rounding errors of the order of \<open>1e-16\<close>. The matrix
  \<^verbatim>\<open>(Rm.T @ P) @ Rm\<close> has rank one; its singular values are
  \<open>3e15 / 31250000000003\<close>, about \<open>96\<close>, and twice \<open>0\<close>. For the target \<open>df = 5/2\<close> the root of
  \<^verbatim>\<open>dfFun(l, d, hat1) - df\<close> is the inverse of the first singular value, \<open>lam_ref\<close>, about
  \<open>0.0104\<close>.
\<close>

definition gram_ref :: matrix where
  "gram_ref =
     [[17 / 16 + 4 / 10 ^ 15, 1 / 8 - 8 / 10 ^ 15, 1 / 16 + 4 / 10 ^ 15],
      [1 / 8 - 8 / 10 ^ 15, 1 / 4 + 16 / 10 ^ 15, 1 / 8 - 8 / 10 ^ 15],
      [1 / 16 + 4 / 10 ^ 15, 1 / 8 - 8 / 10 ^ 15, 17 / 16 + 4 / 10 ^ 15]]"

definition eigenvalues_ref :: "real list" where
  "eigenvalues_ref = [21563534779559809 / 10 ^ 17, 1, 11593646522044259 / 10 ^ 16]"

definition cholesky_ref :: matrix where
  "cholesky_ref =
     [[10307764064044171 / 10 ^ 16, 1212678125181585 / 10 ^ 16, 6063390625908701 / 10 ^ 17],
      [0, 48507125007268444 / 10 ^ 17, 24253562503630729 / 10 ^ 17],
      [0, 0, 1000000000000008 / 10 ^ 15]]"

definition inverse_ref :: matrix where
  "inverse_ref =
     [[97014250014533007 / 10 ^ 17, - 24253562503630729 / 10 ^ 17, - 15999999999998592 / 10 ^ 30],
      [0, 20615528128087517 / 10 ^ 16, - 499999999999924 / 10 ^ 15],
      [0, 0, 999999999999992 / 10 ^ 15]]"

definition whitened_ref :: matrix where
  "whitened_ref =
     (case matmul (mat_T inverse_ref) penalty_ref of Inl e \<Rightarrow> []
      | Inr RtP \<Rightarrow> (case matmul RtP inverse_ref of Inl e \<Rightarrow> [] | Inr M \<Rightarrow> M))"

definition singular_ref :: "real list" where
  "singular_ref = [3 * 10 ^ 15 / 31250000000003, 0, 0]"

definition lam_ref :: real where
  "lam_ref = 31250000000003 / (3 * 10 ^ 15)"

definition lib_ref :: linalg where
  "lib_ref =
     lib_1x1
       \<lparr>matrix_rank := \<lambda>M. if M = basis_ref \<or> M = interaction_cols_ref then Inr 3
                            else matrix_rank lib_1x1 M,
        eigh := \<lambda>A. if A = gram_ref then Inr eigenvalues_ref else eigh lib_1x1 A,
        cholesky := \<lambda>A. if A = gram_ref then Inr cholesky_ref else cholesky lib_1x1 A,
        solve_triangular := \<lambda>U B. if U = cholesky_ref \<and> B = identity 3 then Inr inverse_ref
                                    else solve_triangular lib_1x1 U B,
        svd := \<lambda>uv M. if M = whitened_ref then Inr singular_ref else svd lib_1x1 uv M,
        brentq := brentq_near lam_ref\<rparr>"

text \<open>
  The design matrix of \<^verbatim>\<open>~ -1 + spline(x1, bs="bs", df=3, degree=2):x2 +
  spline(x1, bs="bs", df=3, degree=2)\<close> on these three observations: the three columns of
  the interaction, then the three columns of the spline. Both terms share the spline
  factor and its stateful transform.
\<close>

definition spline_factor_info :: factor_info where
  "spline_factor_info =
     \<lparr>factor_name = spline_q, num_columns = 3,
      pass_bins = [[''_patsy_stobj0__spline__'']],
      transforms = [''_patsy_stobj0__spline__'' \<mapsto> SplineTransform [penalty_ref]]\<rparr>"

definition x2_factor_info :: factor_info where
  "x2_factor_info =
     \<lparr>factor_name = ''x2'', num_columns = 1, pass_bins = [], transforms = Map.empty\<rparr>"

definition interaction_term :: patsy_term where
  "interaction_term = \<lparr>term_name = spline_q @ '':x2'', factors = [spline_q, ''x2'']\<rparr>"

definition spline_term :: patsy_term where
  "spline_term = \<lparr>term_name = spline_q, factors = [spline_q]\<rparr>"

definition dm_mixed :: design_matrix where
  "dm_mixed =
     \<lparr>dm_values = [[1, 0, 0, 1, 0, 0],
                   [- 1 / 4, - 1 / 2, - 1 / 4, 1 / 4, 1 / 2, 1 / 4],
                   [0, 0, 1, 0, 0, 1]],
      terms = [interaction_term, spline_term],
      factor_infos = [spline_q \<mapsto> spline_factor_info, ''x2'' \<mapsto> x2_factor_info],
      term_name_slices = [spline_q @ '':x2'' \<mapsto> (0, 3), spline_q \<mapsto> (3, 6)]\<rparr>"

text \<open>
  The penalty matrix assembled for \<open>dm_mixed\<close> at the target \<open>df = 5/2\<close>: \<open>penalty_ref\<close>
  times \<open>lam_ref\<close> in the block of the spline, zero elsewhere.
\<close>

definition assembled_ref :: matrix where
  "assembled_ref =
     [[0, 0, 0, 0, 0, 0],
      [0, 0, 0, 0, 0, 0],
      [0, 0, 0, 0, 0, 0],
      [0, 0, 0, 4 * lam_ref, - 8 * lam_ref, 4 * lam_ref],
      [0, 0, 0, - 8 * lam_ref, 16 * lam_ref, - 8 * lam_ref],
      [0, 0, 0, 4 * lam_ref, - 8 * lam_ref, 4 * lam_ref]]"

text \<open>
  A formula engine that knows two structured formulas: the intercept-only model, with or
  without the leading tilde, and the null model. No factor names a feature and no model
  is given as a string.
\<close>

definition intercept_design :: "nat \<Rightarrow> design_matrix" where
  "intercept_design n =
     \<lparr>dm_values = replicate n [1],
      terms = [\<lparr>term_name = ''Intercept'', factors = []\<rparr>],
      factor_infos = Map.empty,
      term_name_slices = [''Intercept'' \<mapsto> (0, 1)]\<rparr>"

definition null_design :: "nat \<Rightarrow> design_matrix" where
  "null_design n =
     \<lparr>dm_values = replicate n [], terms = [], factor_infos = Map.empty,
      term_name_slices = Map.empty\<rparr>"

definition env_ref :: "nat python_env" where
  "env_ref =
     \<lparr>dmatrix = (\<lambda>f d. if f = ''1'' \<or> f = ''~1'' then Inr (intercept_design (df_nrows d))
                      else if f = ''0'' \<or> f = ''~0'' then Inr (null_design (df_nrows d))
                      else Inl ValueError),
      co_names = (\<lambda>e. Inr []),
      py_eval = (\<lambda>c. Inl Exception)\<rparr>"

text \<open>A data set of two observations of four features, and one external model.\<close>

definition data_ref :: data_frame where
  "data_ref =
     \<lparr>df_nrows = 2,
      df_columns = [(''x1'', [1, 2]), (''x2'', [3, 4]), (''x3'', [5, 6]), (''x4'', [7, 8])]\<rparr>"

definition dmd_ref :: "(string \<times> nat deep_model) list" where
  "dmd_ref = [(''d1'', \<lparr>model = ModelHandle 0, output_shape = 42\<rparr>)]"

text \<open>A column of a matrix, the inner product of two vectors, a column index in a slice.\<close>

definition column :: "matrix \<Rightarrow> nat \<Rightarrow> real list" where
  "column M c = map (\<lambda>r. r ! c) M"

definition dot :: "real list \<Rightarrow> real list \<Rightarrow> real" where
  "dot u v = sum_list (map2 (*) u v)"

definition in_slice :: "nat \<times> nat \<Rightarrow> nat \<Rightarrow> bool" where
  "in_slice sl c = (fst sl \<le> c \<and> c < snd sl)"

text \<open>
  The contract of \<^verbatim>\<open>np.linalg.qr\<close> in exact arithmetic: \<open>Q\<close> has as many rows as \<open>C\<close>, its
  columns are orthonormal, and \<open>C = Q R\<close>.
\<close>

definition is_qr :: "matrix \<Rightarrow> matrix \<Rightarrow> matrix \<Rightarrow> bool" where
  "is_qr C Q R =
     (has_shape (length C) (shape1 Q) Q \<and> has_shape (shape1 Q) (shape1 C) R
      \<and> (\<forall>i < shape1 Q. \<forall>j < shape1 Q.
            (\<Sum>r < length C. Q ! r ! i * Q ! r ! j) = (if i = j then 1 else 0))
      \<and> (\<forall>r < length C. \<forall>c < shape1 C. C ! r ! c = (\<Sum>i < shape1 Q. Q ! r ! i * R ! i ! c)))"

text \<open>The name of a spline term on \<^verbatim>\<open>x1\<close> of one column.\<close>

definition spline_x1 :: string where
  "spline_x1 = ''spline(x1, bs=\"bs\", df=1)''"

text \<open>
  A structured matrix of four observations with the columns intercept, \<^verbatim>\<open>x1\<close>, \<^verbatim>\<open>x2\<close> and one
  spline column on \<^verbatim>\<open>x1\<close>, with its term classification, and a library whose \<open>qr\<close> knows a
  QR factorisation of the constraint matrix of this design.
\<close>

definition sm_ref :: matrix where
  "sm_ref = [[1, 1, 1, 1], [1, - 1, 0, 2], [1, 1, 0, 3], [1, - 1, 0, 5]]"

definition spline_info_ref :: term_info where
  "spline_info_ref =
     \<lparr>list_of_slices = [(3, 4)], list_of_input_features = [[''x1'']],
      list_of_term_names = [spline_x1]\<rparr>"

definition non_spline_info_ref :: term_info where
  "non_spline_info_ref =
     \<lparr>list_of_slices = [(0, 1), (1, 2), (2, 3)],
      list_of_input_features = [[], [''x1''], [''x2'']],
      list_of_term_names = [''Intercept'', ''x1'', ''x2'']\<rparr>"

definition lib_qr_ref :: linalg where
  "lib_qr_ref =
     lib_1x1\<lparr>qr := \<lambda>C. if C = [[1, 1], [1, - 1], [1, 1], [1, - 1]]
                       then Inr ([[- 1 / 2, - 1 / 2], [- 1 / 2, 1 / 2],
                                  [- 1 / 2, - 1 / 2], [- 1 / 2, 1 / 2]],
                                 [[- 2, 0], [0, - 2]])
                       else Inl LinAlgError\<rparr>"

section \<open>Properties of the degrees-of-freedom solver\<close>

lemma sqrt_machine_epsilon_pos: "0 < sqrt machine_epsilon"
  by (simp add: machine_epsilon_def)

lemma sqrt_machine_epsilon_small: "sqrt machine_epsilon < 1 / 10 ^ 7"
  unfolding machine_epsilon_def
  by (rule real_less_lsqrt) (simp_all add: power2_eq_square)

lemma sqrt_machine_epsilon_big: "1 / 10 ^ 8 < sqrt machine_epsilon"
  unfolding machine_epsilon_def
  by (rule real_less_rsqrt) (simp add: power2_eq_square)

lemma lib_1x1_simps:
  "matrix_rank lib_1x1 [[a]] = Inr (if a = 0 then 0 else 1)"
  "eigh lib_1x1 [[a]] = Inr [a]"
  "cholesky lib_1x1 [[a]] = (if a > 0 then Inr [[sqrt a]] else Inl LinAlgError)"
  "solve_triangular lib_1x1 [[u]] [[b]] = (if u = 0 then Inl LinAlgError else Inr [[b / u]])"
  "svd lib_1x1 uv [[a]] = Inr [\<bar>a\<bar>]"
  "brentq lib_1x1 = brentq_near 1"
  by (simp_all add: lib_1x1_def)

lemma singular_values_1x1:
  assumes big: "1 / 10 ^ 7 \<le> x * x + p / 10 ^ 15"
  shows "df2lambda_singular_values lib_1x1 [[x]] [[p]] = Inr [\<bar>p\<bar> / (x * x + p / 10 ^ 15)]"
proof -
  have XtX: "matmul (mat_T [[x]]) [[x]] = Inr [[x * x]]"
    by (simp add: matmul_def mat_T_def shape0_def shape1_def)
  have A0: "np_add [[x * x]] (mat_scale [[p]] (1 / 10 ^ 15)) = Inr [[x * x + p / 10 ^ 15]]"
    by (simp add: np_add_def broadcast_to_def mat_scale_def shape0_def shape1_def)
  have assms: "0 < x * x + p / 10 ^ 15"
    using big by (rule less_le_trans [rotated]) simp
  have "\<not> x * x + p / 10 ^ 15 - sqrt machine_epsilon < - (1 / 10 ^ 10)"
    using big sqrt_machine_epsilon_small by simp
  then have psd:
    "make_matrix_positive_semi_definite lib_1x1 [[x * x + p / 10 ^ 15]] machine_epsilon
       = Inr [[x * x + p / 10 ^ 15]]"
    by (simp add: make_matrix_positive_semi_definite_def lib_1x1_simps)
  have s0: "sqrt (x * x + p / 10 ^ 15) \<noteq> 0" using assms by simp
  have Rm: "solve_triangular lib_1x1 [[sqrt (x * x + p / 10 ^ 15)]] (identity (shape1 [[x * x]]))
      = Inr [[1 / sqrt (x * x + p / 10 ^ 15)]]"
    using s0 by (simp add: lib_1x1_simps identity_def shape1_def)
  have M: "matmul (mat_T [[1 / sqrt (x * x + p / 10 ^ 15)]]) [[p]]
      = Inr [[p / sqrt (x * x + p / 10 ^ 15)]]"
    by (simp add: matmul_def mat_T_def shape0_def shape1_def)
  have M2: "matmul [[p / sqrt (x * x + p / 10 ^ 15)]] [[1 / sqrt (x * x + p / 10 ^ 15)]]
      = Inr [[p / (x * x + p / 10 ^ 15)]]"
    using assms by (simp add: matmul_def shape0_def shape1_def)
  have ab: "\<bar>p / (x * x + p / 10 ^ 15)\<bar> = \<bar>p\<bar> / (x * x + p / 10 ^ 15)"
    using assms by (simp add: abs_divide)
  have chol: "cholesky lib_1x1 [[x * x + p / 10 ^ 15]] = Inr [[sqrt (x * x + p / 10 ^ 15)]]"
    using assms by (simp add: lib_1x1_simps)
  show ?thesis
    unfolding df2lambda_singular_values_def XtX sum.case A0 psd chol Rm M M2 lib_1x1_simps(5) ab
    by (rule refl)
qed

lemma solve_reference:
  "df2lambda lib_1x1 [[1]] [[1]] (Some (1 / 2)) None True (10 ^ 15) = Inr (1 / 2, 1)"
proof -
  have d: "df2lambda_singular_values lib_1x1 [[1]] [[1]] = Inr [1 / (1 + 1 / 10 ^ 15)]"
    using singular_values_1x1 [of 1 1] by simp
  have solve: "df2lambda_solve lib_1x1 [1 / (1 + 1 / 10 ^ 15)] (1 / 2) True (10 ^ 15)
      = Inr (1 / 2, 1)"
    using sqrt_machine_epsilon_pos sqrt_machine_epsilon_big
    by (simp add: df2lambda_solve_def dfFun_def lib_1x1_simps brentq_near_def)
  show ?thesis
    using d solve by (simp add: df2lambda_def lib_1x1_simps)
qed

lemma lib_ref_simps:
  "matrix_rank lib_ref basis_ref = Inr 3"
  "matrix_rank lib_ref interaction_cols_ref = Inr 3"
  "eigh lib_ref gram_ref = Inr eigenvalues_ref"
  "cholesky lib_ref gram_ref = Inr cholesky_ref"
  "solve_triangular lib_ref cholesky_ref (identity 3) = Inr inverse_ref"
  "svd lib_ref uv whitened_ref = Inr singular_ref"
  "brentq lib_ref = brentq_near lam_ref"
  by (simp_all add: lib_ref_def)

lemma upt_3: "[0..<3] = [0, 1, 2]"
  by (simp add: upt_rec [of 0] upt_rec [of 1] upt_rec [of 2] numeral_3_eq_3)

lemma gram_of_basis:
  "matmul (mat_T basis_ref) basis_ref
     = Inr [[17 / 16, 1 / 8, 1 / 16], [1 / 8, 1 / 4, 1 / 8], [1 / 16, 1 / 8, 17 / 16]]"
  by (simp add: matmul_def mat_T_def basis_ref_def shape0_def shape1_def upt_3)

lemma gram_of_interaction:
  "matmul (mat_T interaction_cols_ref) interaction_cols_ref
     = Inr [[17 / 16, 1 / 8, 1 / 16], [1 / 8, 1 / 4, 1 / 8], [1 / 16, 1 / 8, 17 / 16]]"
  by (simp add: matmul_def mat_T_def interaction_cols_ref_def shape0_def shape1_def upt_3)

lemma whitened_ref_eq:
  assumes "matmul (mat_T inverse_ref) penalty_ref = Inr RtP" and "matmul RtP inverse_ref = Inr M"
  shows "M = whitened_ref"
  using assms by (simp add: whitened_ref_def)

lemma matmul_returns: "shape1 A = shape0 B \<Longrightarrow> \<exists>C. matmul A B = Inr C"
  by (simp add: matmul_def)

lemma singular_values_ref:
  assumes XtX: "matmul (mat_T X) X
     = Inr [[17 / 16, 1 / 8, 1 / 16], [1 / 8, 1 / 4, 1 / 8], [1 / 16, 1 / 8, 17 / 16]]"
  shows "df2lambda_singular_values lib_ref X penalty_ref = Inr singular_ref"
proof -
  have A0: "np_add [[17 / 16, 1 / 8, 1 / 16], [1 / 8, 1 / 4, 1 / 8], [1 / 16, 1 / 8, 17 / 16]]
              (mat_scale penalty_ref (1 / 10 ^ 15)) = Inr gram_ref"
    by (simp add: np_add_def broadcast_to_def mat_scale_def penalty_ref_def gram_ref_def
        shape0_def shape1_def upt_3)
  have "\<not> Min (set eigenvalues_ref) - sqrt machine_epsilon < - (1 / 10 ^ 10)"
    using sqrt_machine_epsilon_small by (simp add: eigenvalues_ref_def)
  then have psd: "make_matrix_positive_semi_definite lib_ref gram_ref machine_epsilon = Inr gram_ref"
    by (simp add: make_matrix_positive_semi_definite_def lib_ref_simps eigenvalues_ref_def)
  have id3: "identity (shape1 [[17 / 16, 1 / 8, 1 / 16], [1 / 8, 1 / 4, 1 / 8],
                                 [1 / 16, 1 / 8, 17 / 16 :: real]]) = identity 3"
    by (simp add: shape1_def numeral_3_eq_3)
  obtain RtP where RtP: "matmul (mat_T inverse_ref) penalty_ref = Inr RtP"
    using matmul_returns [of "mat_T inverse_ref" penalty_ref]
    by (auto simp: mat_T_def inverse_ref_def penalty_ref_def shape0_def shape1_def upt_3)
  have "shape1 RtP = shape0 inverse_ref"
    using RtP
    by (auto simp: matmul_def mat_T_def inverse_ref_def penalty_ref_def shape0_def shape1_def
        upt_3 split: if_splits)
  then obtain M where M: "matmul RtP inverse_ref = Inr M"
    using matmul_returns by blast
  have W: "M = whitened_ref" using RtP M by (rule whitened_ref_eq)
  show ?thesis
    unfolding df2lambda_singular_values_def XtX sum.case A0 psd lib_ref_simps(4) id3
      lib_ref_simps(5) RtP M W lib_ref_simps(6)
    by (rule refl)
qed

lemma solve_ref:
  "df2lambda_solve lib_ref singular_ref (5 / 2) True (10 ^ 15) = Inr (5 / 2, lam_ref)"
  using sqrt_machine_epsilon_pos
  by (simp add: df2lambda_solve_def dfFun_def lib_ref_simps brentq_near_def singular_ref_def
      lam_ref_def)

lemma df2lambda_ref:
  "df2lambda lib_ref basis_ref penalty_ref (Some (5 / 2)) None True (10 ^ 15)
     = Inr (5 / 2, lam_ref)"
  "df2lambda lib_ref interaction_cols_ref penalty_ref (Some (5 / 2)) None True (10 ^ 15)
     = Inr (5 / 2, lam_ref)"
  using singular_values_ref [OF gram_of_basis] singular_values_ref [OF gram_of_interaction]
    solve_ref
  by (simp_all add: df2lambda_def lib_ref_simps)

text \<open>
  C4. With \<^verbatim>\<open>hat1 == False\<close> the functional does not evaluate to
  \<open>2 \<Sum> 1/(1 + \<lambda> d\<^sub>i) - \<Sum> (1/(1 + \<lambda> d\<^sub>i))\<^sup>2\<close>: for every \<open>\<lambda>\<close> and every vector of singular
  values the call raises \<open>TypeError\<close>, because the source squares with \<^verbatim>\<open>^\<close>. With the
  default flag it returns \<open>\<Sum> 1/(1 + \<lambda> d\<^sub>i)\<close>.
\<close>

theorem dfFun_unbiased_risk_variant_raises:
  "dfFun lam d False = Inl TypeError \<and> dfFun lam d True = Inr (\<Sum>di\<leftarrow>d. 1 / (1 + lam * di))"
  by (simp add: dfFun_def)

text \<open>
  C5. Whenever the smallest eigenvalue, less the tolerance \<open>sqrt machine_epsilon\<close>, is
  below \<open>-1e-10\<close>, the repair routine returns no matrix: its recursive call lacks the
  argument \<^verbatim>\<open>machine_epsilon\<close> and raises \<open>TypeError\<close>.
\<close>

theorem repair_branch_raises:
  assumes "eigh la A = Inr ev" and "ev \<noteq> []"
    and "Min (set ev) - sqrt eps < - (1 / 10 ^ 10)"
  shows "make_matrix_positive_semi_definite la A eps = Inl TypeError"
  using assms by (simp add: make_matrix_positive_semi_definite_def)

theorem repair_branch_raises_witness:
  "eigh lib_1x1 [[- 1]] = Inr [- 1] \<and> [- 1 :: real] \<noteq> []
   \<and> Min (set [- 1]) - sqrt machine_epsilon < - (1 / 10 ^ 10)
   \<and> make_matrix_positive_semi_definite lib_1x1 [[- 1]] machine_epsilon = Inl TypeError"
proof -
  have lt: "Min (set [- 1]) - sqrt machine_epsilon < - (1 / 10 ^ 10)"
    using sqrt_machine_epsilon_pos by (simp del: real_sqrt_gt_0_iff)
  have ev: "eigh lib_1x1 [[- 1]] = Inr [- 1]" by (simp add: lib_1x1_simps)
  from repair_branch_raises [OF ev _ lt] ev lt show ?thesis by simp
qed

text \<open>
  C2. If the requested df is at least the rank of the design sub-matrix, the solver does
  not fall back to \<open>\<lambda> = 0\<close> with a warning: the warning is raised as the exception
  \<open>UserWarning\<close> and no pair \<open>(df, \<lambda>)\<close> is returned.
\<close>

theorem df_at_least_rank_raises:
  assumes "matrix_rank la dm = Inr r" and "real r \<le> df"
  shows "df2lambda la dm P0 (Some df) lam hat1 lam_max = Inl UserWarning"
  using assms by (simp add: df2lambda_def)

theorem df_at_least_rank_raises_witness:
  "matrix_rank lib_1x1 [[1]] = Inr 1 \<and> real 1 \<le> 1
   \<and> df2lambda lib_1x1 [[1]] [[3 * 10 ^ 15]] (Some 1) None True (10 ^ 15) = Inl UserWarning"
proof -
  have r: "matrix_rank lib_1x1 [[1]] = Inr 1" by (simp add: lib_1x1_simps)
  from df_at_least_rank_raises [OF r, of 1 "[[3 * 10 ^ 15]]" None True "10 ^ 15"] r
  show ?thesis by simp
qed

text \<open>
  C8. If \<open>\<lambda>\<close> is supplied and equals 0 (and no df at or above the rank is supplied with
  it), the solver returns the rank of the design sub-matrix as df, paired with
  \<open>\<lambda> = 0\<close>. Of the library only \<open>matrix_rank\<close> determines the result: no eigenvalue,
  factorisation, singular value or root is computed.
\<close>

theorem lambda_zero_returns_rank:
  assumes "matrix_rank la dm = Inr r" and "\<forall>v. df = Some v \<longrightarrow> v < real r"
  shows "df2lambda la dm P0 df (Some 0) hat1 lam_max = Inr (real r, 0)"
  using assms by (cases df) (simp_all add: df2lambda_def)

theorem lambda_zero_returns_rank_witness:
  "matrix_rank lib_1x1 [[1]] = Inr 1
   \<and> df2lambda lib_1x1 [[1]] [[3 * 10 ^ 15]] None (Some 0) True (10 ^ 15) = Inr (1, 0)
   \<and> df2lambda lib_1x1 [[1]] [[3 * 10 ^ 15]] (Some (1 / 2)) (Some 0) True (10 ^ 15) = Inr (1, 0)"
proof -
  have r: "matrix_rank lib_1x1 [[1]] = Inr 1" by (simp add: lib_1x1_simps)
  from lambda_zero_returns_rank [OF r, of None "[[3 * 10 ^ 15]]" True "10 ^ 15"]
    lambda_zero_returns_rank [OF r, of "Some (1 / 2)" "[[3 * 10 ^ 15]]" True "10 ^ 15"] r
  show ?thesis by simp
qed

text \<open>
  C3, the target that is infeasible at \<open>\<lambda>_max\<close>: when the df at \<open>\<lambda>_max\<close> exceeds the
  target by more than \<open>sqrt machine_epsilon\<close>, the solver returns no df at all; the
  warning is raised as the exception \<open>UserWarning\<close>.
\<close>

theorem infeasible_target_raises:
  assumes "matrix_rank la dm = Inr r" and "df < real r"
    and "df2lambda_singular_values la dm P0 = Inr d" and "df < real (length d)"
    and "dfFun lam_max d True = Inr v" and "sqrt machine_epsilon < v - df"
  shows "df2lambda la dm P0 (Some df) None True lam_max = Inl UserWarning"
proof -
  have "0 < v - df" using assms(6) sqrt_machine_epsilon_pos by linarith
  then show ?thesis using assms by (simp add: df2lambda_def df2lambda_solve_def)
qed

theorem infeasible_target_raises_witness:
  "matrix_rank lib_1x1 [[1]] = Inr 1 \<and> (1 / 2 :: real) < real 1
   \<and> df2lambda_singular_values lib_1x1 [[1]] [[0]] = Inr [0]
   \<and> dfFun (10 ^ 15) [0] True = Inr 1 \<and> sqrt machine_epsilon < 1 - 1 / 2
   \<and> df2lambda lib_1x1 [[1]] [[0]] (Some (1 / 2)) None True (10 ^ 15) = Inl UserWarning"
proof -
  have r: "matrix_rank lib_1x1 [[1]] = Inr 1" by (simp add: lib_1x1_simps)
  have d: "df2lambda_singular_values lib_1x1 [[1]] [[0]] = Inr [0]"
    using singular_values_1x1 [of 1 0] by simp
  have v: "dfFun (10 ^ 15) [0] True = Inr 1" by (simp add: dfFun_def)
  have small: "sqrt machine_epsilon < 1 - 1 / 2"
    using sqrt_machine_epsilon_small by simp
  from infeasible_target_raises [OF r _ d _ v small] r d v small
  show ?thesis by simp
qed

text \<open>
  The round trip of the solver where it returns: a \<open>\<lambda>\<close> found for a target df below the
  number of singular values gives the target back within \<open>sqrt machine_epsilon\<close>.
\<close>

lemma solve_round_trip:
  assumes "df2lambda_solve la d df hat1 lam_max = Inr (df', lam)" and "df < real (length d)"
  shows "df' = df \<and> (\<exists>v. dfFun lam d hat1 = Inr v \<and> \<bar>v - df\<bar> \<le> sqrt machine_epsilon)"
  using assms
  by (auto simp: df2lambda_solve_def split: sum.splits if_splits)

section \<open>Properties of the penalty assembler\<close>

lemma has_shape_zeros: "has_shape n m (zeros n m)"
  by (simp add: has_shape_def zeros_def)

lemma zeros_nth: "i < n \<Longrightarrow> j < m \<Longrightarrow> zeros n m ! i ! j = 0"
  by (simp add: zeros_def)

lemma shape0_has_shape: "has_shape n m M \<Longrightarrow> shape0 M = n"
  by (simp add: has_shape_def shape0_def)

lemma shape1_square: "has_shape n n M \<Longrightarrow> shape1 M = n"
  by (cases M) (auto simp: has_shape_def shape1_def)

lemma shape1_has_shape: "has_shape n m M \<Longrightarrow> 0 < n \<Longrightarrow> shape1 M = m"
  by (cases M) (auto simp: has_shape_def shape1_def)

lemma set_block_square:
  assumes "set_block B sl V = Inr B'" "has_shape n n B"
  shows "has_shape n n B'"
    and "i < n \<Longrightarrow> j < n \<Longrightarrow> \<not> in_block sl i j \<Longrightarrow> B' ! i ! j = B ! i ! j"
proof -
  have s: "shape0 B = n" "shape1 B = n"
    using assms(2) shape0_has_shape shape1_square by auto
  obtain V' where B': "B' = map (\<lambda>i. map (\<lambda>j. if min (fst sl) n \<le> i \<and> i < max (min (fst sl) n) (min (snd sl) n)
         \<and> min (fst sl) n \<le> j \<and> j < max (min (fst sl) n) (min (snd sl) n)
                                     then V' ! (i - min (fst sl) n) ! (j - min (fst sl) n) else B ! i ! j)
                              [0..<n]) [0..<n]"
    using assms(1) unfolding set_block_def Let_def s by (auto split: sum.splits)
  show "has_shape n n B'" by (simp add: B' has_shape_def)
  show "B' ! i ! j = B ! i ! j" if "i < n" "j < n" "\<not> in_block sl i j"
    using that by (auto simp: B' in_block_def)
qed

lemma broadcast_to_same:
  assumes "has_shape n n V"
  shows "\<exists>V'. broadcast_to n n V = Inr V' \<and> (\<forall>i<n. \<forall>j<n. V' ! i ! j = V ! i ! j)"
proof -
  have s: "shape0 V = n" "shape1 V = n"
    using assms shape0_has_shape shape1_square by auto
  show ?thesis by (auto simp: broadcast_to_def s)
qed

lemma set_block_inside:
  assumes "set_block B sl V = Inr B'" "has_shape n n B" "snd sl \<le> n" "fst sl \<le> snd sl"
    "has_shape (snd sl - fst sl) (snd sl - fst sl) V" "i < snd sl - fst sl" "j < snd sl - fst sl"
  shows "B' ! (fst sl + i) ! (fst sl + j) = V ! i ! j"
proof -
  obtain V' where V': "broadcast_to (snd sl - fst sl) (snd sl - fst sl) V = Inr V'"
    "\<forall>i<snd sl - fst sl. \<forall>j<snd sl - fst sl. V' ! i ! j = V ! i ! j"
    using broadcast_to_same [OF assms(5)] by blast
  have m: "min (fst sl) n = fst sl" "min (snd sl) n = snd sl" "max (fst sl) (snd sl) = snd sl"
    using assms(3,4) by auto
  have B': "B' = map (\<lambda>i. map (\<lambda>j. if fst sl \<le> i \<and> i < snd sl \<and> fst sl \<le> j \<and> j < snd sl
                        then V' ! (i - fst sl) ! (j - fst sl) else B ! i ! j) [0..<n]) [0..<n]"
    using assms(1) V'(1)
    by (simp add: set_block_def Let_def shape0_has_shape [OF assms(2)] shape1_square [OF assms(2)] m)
  have lt: "fst sl + i < n" "fst sl + j < n" "fst sl + i < snd sl" "fst sl + j < snd sl"
    using assms(3,6,7) by auto
  show ?thesis using lt assms(6,7) V'(2) by (simp add: B')
qed

lemma penalty_step_unpenalised:
  assumes "penalty_step la dm dfs t s = Inr s'" "penalty_of_term dm t = None"
  shows "s' = s"
  using assms
  by (auto simp: penalty_step_def penalty_of_term_def split: option.splits sum.splits if_splits list.splits dfs.splits)

lemma penalty_step_penalised:
  assumes "penalty_step la dm dfs t s = Inr s'" "penalty_of_term dm t = Some P0"
  shows "\<exists>sl dfv df' lam B'. term_name_slices dm (term_name t) = Some sl \<and> df_request dfs (snd s) = Some dfv \<and>
     df2lambda la (iloc_cols (dm_values dm) sl) P0 (Some dfv) None True (10 ^ 15) = Inr (df', lam) \<and>
     set_block (fst s) sl (mat_scale P0 lam) = Inr B' \<and> s' = (B', snd s + 1)"
  using assms
  by (auto simp: penalty_step_def penalty_of_term_def df_request_def split: option.splits sum.splits if_splits list.splits dfs.splits)

lemma penalty_step_multi_factor:
  assumes "term_name_slices dm (term_name t) = Some sl" "length (factors t) \<noteq> 1"
  shows "penalty_step la dm dfs t s = Inr s"
  using assms by (simp add: penalty_step_def)


lemma has_shape_mat_scale: "has_shape n m M \<Longrightarrow> has_shape n m (mat_scale M c)"
  by (simp add: has_shape_def mat_scale_def)

lemma mat_scale_nth: "has_shape n m M \<Longrightarrow> i < n \<Longrightarrow> j < m \<Longrightarrow> mat_scale M c ! i ! j = M ! i ! j * c"
  by (simp add: has_shape_def mat_scale_def)

lemma slice_of_term_slice: "term_name_slices dm (term_name t) = Some sl \<Longrightarrow> term_slice dm t = sl"
  by (simp add: term_slice_def)

lemma penalty_loop_spec:
  assumes "penalty_loop la dm dfs ts s = Inr s'"
    and "has_shape n n (fst s)"
    and "\<forall>t \<in> set ts. fst (term_slice dm t) \<le> snd (term_slice dm t) \<and> snd (term_slice dm t) \<le> n"
    and "sorted_wrt (\<lambda>t u. slices_disjoint (term_slice dm t) (term_slice dm u)) ts"
    and "\<forall>t \<in> set ts. \<forall>P0. penalty_of_term dm t = Some P0 \<longrightarrow>
           has_shape (snd (term_slice dm t) - fst (term_slice dm t))
                     (snd (term_slice dm t) - fst (term_slice dm t)) P0"
  shows "has_shape n n (fst s') \<and>
         snd s' = snd s + length (penalised_terms dm ts) \<and>
         (\<forall>m < length (penalised_terms dm ts).
            \<exists>P0 dfv df' lam.
              penalty_of_term dm (penalised_terms dm ts ! m) = Some P0 \<and>
              df_request dfs (snd s + m) = Some dfv \<and>
              df2lambda la (iloc_cols (dm_values dm) (term_slice dm (penalised_terms dm ts ! m))) P0
                (Some dfv) None True (10 ^ 15) = Inr (df', lam) \<and>
              (\<forall>i j. in_block (term_slice dm (penalised_terms dm ts ! m)) i j \<longrightarrow>
                 fst s' ! i ! j
                   = P0 ! (i - fst (term_slice dm (penalised_terms dm ts ! m)))
                        ! (j - fst (term_slice dm (penalised_terms dm ts ! m))) * lam)) \<and>
         (\<forall>i < n. \<forall>j < n.
            (\<forall>t \<in> set (penalised_terms dm ts). \<not> in_block (term_slice dm t) i j) \<longrightarrow>
            fst s' ! i ! j = fst s ! i ! j)"
  using assms
proof (induction ts arbitrary: s)
  case Nil
  then show ?case by (simp add: penalised_terms_def)
next
  case (Cons t ts)
  from Cons.prems(1) obtain s1 where s1: "penalty_step la dm dfs t s = Inr s1"
    and rest: "penalty_loop la dm dfs ts s1 = Inr s'"
    by (auto split: sum.splits)
  have wf_ts: "\<forall>t \<in> set ts. fst (term_slice dm t) \<le> snd (term_slice dm t) \<and> snd (term_slice dm t) \<le> n"
    and dj_ts: "sorted_wrt (\<lambda>t u. slices_disjoint (term_slice dm t) (term_slice dm u)) ts"
    and sh_ts: "\<forall>t \<in> set ts. \<forall>P0. penalty_of_term dm t = Some P0 \<longrightarrow>
           has_shape (snd (term_slice dm t) - fst (term_slice dm t))
                     (snd (term_slice dm t) - fst (term_slice dm t)) P0"
    and dj_t: "\<forall>u \<in> set ts. slices_disjoint (term_slice dm t) (term_slice dm u)"
    using Cons.prems(3,4,5) by auto
  show ?case
  proof (cases "penalty_of_term dm t")
    case None
    then have "s1 = s" using s1 penalty_step_unpenalised by blast
    have pt: "penalised_terms dm (t # ts) = penalised_terms dm ts"
      using None by (simp add: penalised_terms_def)
    from Cons.IH [OF rest [unfolded \<open>s1 = s\<close>] Cons.prems(2) wf_ts dj_ts sh_ts]
    show ?thesis unfolding pt .
  next
    case (Some P0)
    then obtain sl dfv df' lam B' where
      sl: "term_name_slices dm (term_name t) = Some sl"
      and dfv: "df_request dfs (snd s) = Some dfv"
      and solve: "df2lambda la (iloc_cols (dm_values dm) sl) P0 (Some dfv) None True (10 ^ 15) = Inr (df', lam)"
      and blk: "set_block (fst s) sl (mat_scale P0 lam) = Inr B'"
      and s1_eq: "s1 = (B', snd s + 1)"
      using penalty_step_penalised [OF s1] by blast
    have tsl: "term_slice dm t = sl" using sl by (rule slice_of_term_slice)
    have range: "fst sl \<le> snd sl" "snd sl \<le> n" using Cons.prems(3) tsl by auto
    have shP0: "has_shape (snd sl - fst sl) (snd sl - fst sl) P0"
      using Cons.prems(5) Some tsl by auto
    have shB': "has_shape n n B'" using set_block_square(1) [OF blk Cons.prems(2)] .
    have pt: "penalised_terms dm (t # ts) = t # penalised_terms dm ts"
      using Some by (simp add: penalised_terms_def)
    have sub: "set (penalised_terms dm ts) \<subseteq> set ts" by (auto simp: penalised_terms_def)
    from Cons.IH [OF rest, unfolded s1_eq, simplified, OF shB' wf_ts dj_ts sh_ts]
    have IH1: "has_shape n n (fst s')"
      and IH2: "snd s' = Suc (snd s + length (penalised_terms dm ts))"
      and IH3: "\<forall>m < length (penalised_terms dm ts).
            \<exists>P0 dfv df' lam.
              penalty_of_term dm (penalised_terms dm ts ! m) = Some P0 \<and>
              df_request dfs (Suc (snd s + m)) = Some dfv \<and>
              df2lambda la (iloc_cols (dm_values dm) (term_slice dm (penalised_terms dm ts ! m))) P0
                (Some dfv) None True (10 ^ 15) = Inr (df', lam) \<and>
              (\<forall>i j. in_block (term_slice dm (penalised_terms dm ts ! m)) i j \<longrightarrow>
                 fst s' ! i ! j
                   = P0 ! (i - fst (term_slice dm (penalised_terms dm ts ! m)))
                        ! (j - fst (term_slice dm (penalised_terms dm ts ! m))) * lam)"
      and IH4: "\<forall>i < n. \<forall>j < n.
            (\<forall>t \<in> set (penalised_terms dm ts). \<not> in_block (term_slice dm t) i j) \<longrightarrow>
            fst s' ! i ! j = B' ! i ! j"
      by auto
    have block_t: "fst s' ! i ! j = P0 ! (i - fst sl) ! (j - fst sl) * lam" if ib: "in_block sl i j" for i j
    proof -
      have ij: "i < n" "j < n" using ib range by (auto simp: in_block_def)
      have "\<not> in_block (term_slice dm u) i j" if "u \<in> set (penalised_terms dm ts)" for u
      proof -
        have "slices_disjoint sl (term_slice dm u)" using that sub dj_t tsl by auto
        then show ?thesis using ib by (auto simp: in_block_def slices_disjoint_def)
      qed
      then have "fst s' ! i ! j = B' ! i ! j" using IH4 ij by blast
      moreover have "B' ! (fst sl + (i - fst sl)) ! (fst sl + (j - fst sl)) = mat_scale P0 lam ! (i - fst sl) ! (j - fst sl)"
        using ib by (intro set_block_inside [OF blk Cons.prems(2) range(2,1) has_shape_mat_scale [OF shP0]])
          (auto simp: in_block_def)
      moreover have "mat_scale P0 lam ! (i - fst sl) ! (j - fst sl) = P0 ! (i - fst sl) ! (j - fst sl) * lam"
        using ib by (intro mat_scale_nth [OF shP0]) (auto simp: in_block_def)
      ultimately show ?thesis using ib by (simp add: in_block_def)
    qed
    have c3: "\<exists>P0 dfv df' lam.
              penalty_of_term dm (penalised_terms dm (t # ts) ! m) = Some P0 \<and>
              df_request dfs (snd s + m) = Some dfv \<and>
              df2lambda la (iloc_cols (dm_values dm) (term_slice dm (penalised_terms dm (t # ts) ! m))) P0
                (Some dfv) None True (10 ^ 15) = Inr (df', lam) \<and>
              (\<forall>i j. in_block (term_slice dm (penalised_terms dm (t # ts) ! m)) i j \<longrightarrow>
                 fst s' ! i ! j
                   = P0 ! (i - fst (term_slice dm (penalised_terms dm (t # ts) ! m)))
                        ! (j - fst (term_slice dm (penalised_terms dm (t # ts) ! m))) * lam)"
      if "m < length (penalised_terms dm (t # ts))" for m
    proof (cases m)
      case 0
      then show ?thesis using Some dfv solve block_t by (auto simp: pt tsl)
    next
      case (Suc m')
      then have "m' < length (penalised_terms dm ts)" using that by (simp add: pt)
      with IH3 show ?thesis by (simp add: pt Suc)
    qed
    have c4: "fst s' ! i ! j = fst s ! i ! j"
      if "i < n" "j < n" "\<forall>u \<in> set (penalised_terms dm (t # ts)). \<not> in_block (term_slice dm u) i j" for i j
    proof -
      have "fst s' ! i ! j = B' ! i ! j" using IH4 that by (simp add: pt)
      moreover have "\<not> in_block sl i j" using that(3) tsl by (simp add: pt)
      then have "B' ! i ! j = fst s ! i ! j"
        using set_block_square(2) [OF blk Cons.prems(2) that(1,2)] by simp
      ultimately show ?thesis by simp
    qed
    show ?thesis using IH1 IH2 c3 c4 by (simp add: pt)
  qed
qed

lemma penalty_step_terms_update [simp]:
  "penalty_step la (dm\<lparr>terms := ts\<rparr>) dfs t s = penalty_step la dm dfs t s"
  by (simp add: penalty_step_def cong: if_cong option.case_cong sum.case_cong)

lemma penalty_loop_terms_update [simp]:
  "penalty_loop la (dm\<lparr>terms := ts'\<rparr>) dfs ts s = penalty_loop la dm dfs ts s"
  by (induction ts arbitrary: s) (simp_all split: sum.splits)

lemma penalty_loop_filter:
  assumes "\<forall>u \<in> set ts. term_name_slices dm (term_name u) \<noteq> None"
  shows "penalty_loop la dm dfs (filter (\<lambda>u. length (factors u) = 1) ts) s
           = penalty_loop la dm dfs ts s"
  using assms
proof (induction ts arbitrary: s)
  case Nil
  then show ?case by simp
next
  case (Cons t ts)
  show ?case
  proof (cases "length (factors t) = 1")
    case True
    then show ?thesis using Cons by (simp split: sum.splits)
  next
    case False
    obtain sl where "term_name_slices dm (term_name t) = Some sl"
      using Cons.prems by auto
    then have "penalty_step la dm dfs t s = Inr s"
      using False by (rule penalty_step_multi_factor)
    then show ?thesis using False Cons by simp
  qed
qed

lemma penalty_loop_frame:
  assumes "penalty_loop la dm dfs ts s = Inr s'" and "has_shape n n (fst s)"
  shows "has_shape n n (fst s') \<and>
         (\<forall>i < n. \<forall>j < n.
            (\<forall>t \<in> set (penalised_terms dm ts). \<not> in_block (term_slice dm t) i j) \<longrightarrow>
            fst s' ! i ! j = fst s ! i ! j)"
  using assms
proof (induction ts arbitrary: s)
  case Nil
  then show ?case by simp
next
  case (Cons t ts)
  from Cons.prems(1) obtain s1 where s1: "penalty_step la dm dfs t s = Inr s1"
    and rest: "penalty_loop la dm dfs ts s1 = Inr s'"
    by (auto split: sum.splits)
  show ?case
  proof (cases "penalty_of_term dm t")
    case None
    then have eq: "s1 = s" using s1 penalty_step_unpenalised by blast
    have pt: "penalised_terms dm (t # ts) = penalised_terms dm ts"
      using None by (simp add: penalised_terms_def)
    from Cons.IH [OF rest [unfolded eq] Cons.prems(2)] show ?thesis unfolding pt .
  next
    case (Some P0)
    then obtain sl dfv df' lam B' where
      sl: "term_name_slices dm (term_name t) = Some sl"
      and blk: "set_block (fst s) sl (mat_scale P0 lam) = Inr B'"
      and s1_eq: "s1 = (B', snd s + 1)"
      using penalty_step_penalised [OF s1] by blast
    have tsl: "term_slice dm t = sl" using sl by (rule slice_of_term_slice)
    have shB': "has_shape n n (fst s1)"
      using set_block_square(1) [OF blk Cons.prems(2)] by (simp add: s1_eq)
    have pt: "penalised_terms dm (t # ts) = t # penalised_terms dm ts"
      using Some by (simp add: penalised_terms_def)
    from Cons.IH [OF rest shB']
    have IH1: "has_shape n n (fst s')"
      and IH2: "\<forall>i < n. \<forall>j < n.
            (\<forall>t \<in> set (penalised_terms dm ts). \<not> in_block (term_slice dm t) i j) \<longrightarrow>
            fst s' ! i ! j = B' ! i ! j"
      by (auto simp: s1_eq)
    have "fst s' ! i ! j = fst s ! i ! j"
      if "i < n" "j < n" "\<forall>u \<in> set (penalised_terms dm (t # ts)). \<not> in_block (term_slice dm u) i j"
      for i j
    proof -
      have "fst s' ! i ! j = B' ! i ! j" using IH2 that by (simp add: pt)
      moreover have "\<not> in_block sl i j" using that(3) tsl by (simp add: pt)
      then have "B' ! i ! j = fst s ! i ! j"
        using set_block_square(2) [OF blk Cons.prems(2) that(1,2)] by simp
      ultimately show ?thesis by simp
    qed
    then show ?thesis using IH1 by blast
  qed
qed

lemma penalised_terms_single_factor:
  "u \<in> set (penalised_terms dm ts) \<Longrightarrow> u \<in> set ts \<and> length (factors u) = 1"
  by (auto simp: penalised_terms_def penalty_of_term_def split: if_splits)

text \<open>
  C10. A term that does not consist of exactly one factor leaves the state of the
  assembler's loop, the matrix and the spline counter, as it is, whatever the library
  computes; removing all such terms from the design matrix does not change the assembled
  penalty matrix; and its block in the assembled matrix is zero when no term of one factor
  shares its columns.
\<close>

theorem multi_factor_terms_are_not_penalised:
  assumes "t \<in> set (terms dm)" and "length (factors t) \<noteq> 1"
    and "\<forall>u \<in> set (terms dm). term_name_slices dm (term_name u) \<noteq> None"
  shows "penalty_step la dm dfs t s = Inr s
       \<and> get_P_from_design_matrix la
           (dm\<lparr>terms := filter (\<lambda>u. length (factors u) = 1) (terms dm)\<rparr>) dfs
           = get_P_from_design_matrix la dm dfs
       \<and> (\<forall>big_P i j.
            get_P_from_design_matrix la dm dfs = Inr big_P
            \<and> (\<forall>u \<in> set (terms dm). length (factors u) = 1 \<longrightarrow>
                   slices_disjoint (term_slice dm t) (term_slice dm u))
            \<and> in_block (term_slice dm t) i j
            \<and> i < shape1 (dm_values dm) \<and> j < shape1 (dm_values dm)
            \<longrightarrow> big_P ! i ! j = 0)"
proof (intro conjI allI impI)
  obtain sl where "term_name_slices dm (term_name t) = Some sl"
    using assms(1,3) by auto
  then show "penalty_step la dm dfs t s = Inr s"
    using assms(2) by (rule penalty_step_multi_factor)
next
  show "get_P_from_design_matrix la
           (dm\<lparr>terms := filter (\<lambda>u. length (factors u) = 1) (terms dm)\<rparr>) dfs
           = get_P_from_design_matrix la dm dfs"
    using penalty_loop_filter [OF assms(3), of la dfs]
    by (simp add: get_P_from_design_matrix_def)
next
  fix big_P i j
  let ?p = "shape1 (dm_values dm)"
  assume H: "get_P_from_design_matrix la dm dfs = Inr big_P
            \<and> (\<forall>u \<in> set (terms dm). length (factors u) = 1 \<longrightarrow>
                   slices_disjoint (term_slice dm t) (term_slice dm u))
            \<and> in_block (term_slice dm t) i j \<and> i < ?p \<and> j < ?p"
  then obtain s' where loop: "penalty_loop la dm dfs (terms dm) (zeros ?p ?p, 0) = Inr s'"
    and big: "big_P = fst s'"
    by (auto simp: get_P_from_design_matrix_def split: sum.splits)
  have "\<not> in_block (term_slice dm u) i j" if "u \<in> set (penalised_terms dm (terms dm))" for u
  proof -
    have "slices_disjoint (term_slice dm t) (term_slice dm u)"
      using H penalised_terms_single_factor [OF that] by blast
    then show ?thesis using H by (auto simp: in_block_def slices_disjoint_def)
  qed
  then have "fst s' ! i ! j = fst (zeros ?p ?p, 0 :: nat) ! i ! j"
    using penalty_loop_frame [OF loop, of ?p] H by (simp add: has_shape_zeros)
  then show "big_P ! i ! j = 0" using H by (simp add: big zeros_nth)
qed

lemma spline_in_spline_q: "str_contains ''spline'' spline_q"
  by (simp add: spline_q_def)

lemma spline_in_interaction: "str_contains ''spline'' (term_name interaction_term)"
  by (simp add: interaction_term_def spline_q_def)

lemma spline_q_neq: "spline_q @ '':x2'' \<noteq> spline_q" "spline_q \<noteq> ''x2''"
  by (simp_all add: spline_q_def)

lemma penalty_of_spline_factor:
  "get_penalty_matrix_from_factor_info spline_factor_info = Inr (Some [penalty_ref])"
  using spline_in_spline_q
  by (simp add: get_penalty_matrix_from_factor_info_def spline_factor_info_def)

lemma dm_mixed_simps:
  "terms dm_mixed = [interaction_term, spline_term]"
  "dm_values dm_mixed = [[1, 0, 0, 1, 0, 0],
                         [- 1 / 4, - 1 / 2, - 1 / 4, 1 / 4, 1 / 2, 1 / 4],
                         [0, 0, 1, 0, 0, 1]]"
  "term_name_slices dm_mixed (term_name interaction_term) = Some (0, 3)"
  "term_name_slices dm_mixed (term_name spline_term) = Some (3, 6)"
  "factor_infos dm_mixed spline_q = Some spline_factor_info"
  "factors interaction_term = [spline_q, ''x2'']"
  "factors spline_term = [spline_q]"
  using spline_q_neq
  by (simp_all add: dm_mixed_def interaction_term_def spline_term_def)

lemma dm_mixed_cols:
  "iloc_cols (dm_values dm_mixed) (0, 3) = interaction_cols_ref"
  "iloc_cols (dm_values dm_mixed) (3, 6) = basis_ref"
  "shape1 (dm_values dm_mixed) = 6"
  by (simp_all add: iloc_cols_def dm_mixed_simps interaction_cols_ref_def basis_ref_def shape1_def)

lemma penalty_step_eval:
  assumes "term_name_slices dm (term_name t) = Some sl" and "factors t = [f]"
    and "factor_infos dm f = Some fi"
    and "get_penalty_matrix_from_factor_info fi = Inr (Some (P0 # Ps))"
    and "df_request dfs (snd s) = Some dfv"
    and "df2lambda la (iloc_cols (dm_values dm) sl) P0 (Some dfv) None True (10 ^ 15)
           = Inr (df', lam)"
    and "set_block (fst s) sl (mat_scale P0 lam) = Inr B'"
  shows "penalty_step la dm dfs t s = Inr (B', snd s + 1)"
proof (cases dfs)
  case (DfScalar v)
  then show ?thesis using assms by (simp add: penalty_step_def df_request_def)
next
  case (DfList l)
  then show ?thesis using assms by (simp add: penalty_step_def df_request_def split: if_splits)
qed

lemma upt_6: "[0..<6] = [0, 1, 2, 3, 4, 5]"
  by (simp add: upt_rec [of 0] upt_rec [of 1] upt_rec [of 2] upt_rec [of 3] upt_rec [of 4]
      upt_rec [of 5] eval_nat_numeral)

lemma block_ref:
  "set_block (zeros 6 6) (3, 6) (mat_scale penalty_ref lam_ref) = Inr assembled_ref"
  by (simp add: set_block_def zeros_def shape0_def shape1_def mat_scale_def broadcast_to_def
      penalty_ref_def assembled_ref_def upt_3 upt_6 eval_nat_numeral)

lemma penalty_step_spline_term:
  assumes "df_request dfs k = Some (5 / 2)"
  shows "penalty_step lib_ref dm_mixed dfs spline_term (zeros 6 6, k) = Inr (assembled_ref, k + 1)"
proof -
  have blk: "set_block (fst (zeros 6 6, k)) (3, 6) (mat_scale penalty_ref lam_ref)
      = Inr assembled_ref"
    using block_ref by simp
  have solve: "df2lambda lib_ref (iloc_cols (dm_values dm_mixed) (3, 6)) penalty_ref
      (Some (5 / 2)) None True (10 ^ 15) = Inr (5 / 2, lam_ref)"
    unfolding dm_mixed_cols by (rule df2lambda_ref)
  from penalty_step_eval [OF dm_mixed_simps(4) dm_mixed_simps(7) dm_mixed_simps(5)
      penalty_of_spline_factor _ solve blk, of dfs] assms
  show ?thesis by simp
qed

lemma assemble_dm_mixed:
  assumes "df_request dfs 0 = Some (5 / 2)"
  shows "get_P_from_design_matrix lib_ref dm_mixed dfs = Inr assembled_ref"
proof -
  have s1: "penalty_step lib_ref dm_mixed dfs interaction_term (zeros 6 6, 0) = Inr (zeros 6 6, 0)"
    by (rule penalty_step_multi_factor [of _ _ "(0, 3)"]) (simp_all add: dm_mixed_simps)
  have s2: "penalty_step lib_ref dm_mixed dfs spline_term (zeros 6 6, 0) = Inr (assembled_ref, 1)"
    using penalty_step_spline_term [OF assms] by simp
  show ?thesis
    unfolding get_P_from_design_matrix_def dm_mixed_cols(3) dm_mixed_simps(1)
    by (simp add: s1 s2)
qed

lemma dm_mixed_slices:
  "term_slice dm_mixed interaction_term = (0, 3)" "term_slice dm_mixed spline_term = (3, 6)"
  by (simp_all add: term_slice_def dm_mixed_simps)

lemma dm_mixed_penalties:
  "penalty_of_term dm_mixed interaction_term = None"
  "penalty_of_term dm_mixed spline_term = Some penalty_ref"
  "penalised_terms dm_mixed (terms dm_mixed) = [spline_term]"
  by (simp_all add: penalised_terms_def penalty_of_term_def dm_mixed_simps penalty_of_spline_factor)

lemma assembled_ref_entries:
  "assembled_ref ! 0 ! 0 = 0" "assembled_ref ! 1 ! 2 = 0" "assembled_ref ! 0 ! 3 = 0"
  "assembled_ref ! 3 ! 3 = penalty_ref ! 0 ! 0 * lam_ref"
  "assembled_ref ! 4 ! 5 = penalty_ref ! 1 ! 2 * lam_ref"
  "has_shape 6 6 assembled_ref"
  by (simp_all add: assembled_ref_def penalty_ref_def has_shape_def)

theorem multi_factor_terms_are_not_penalised_witness:
  "interaction_term \<in> set (terms dm_mixed) \<and> length (factors interaction_term) = 2
   \<and> penalty_step lib_ref dm_mixed (DfList [5 / 2]) interaction_term (zeros 6 6, 0)
       = Inr (zeros 6 6, 0)
   \<and> get_P_from_design_matrix lib_ref (dm_mixed\<lparr>terms := [spline_term]\<rparr>) (DfList [5 / 2])
       = Inr assembled_ref
   \<and> get_P_from_design_matrix lib_ref dm_mixed (DfList [5 / 2]) = Inr assembled_ref
   \<and> in_block (term_slice dm_mixed interaction_term) 1 2
   \<and> slices_disjoint (term_slice dm_mixed interaction_term) (term_slice dm_mixed spline_term)
   \<and> assembled_ref ! 1 ! 2 = 0"
proof -
  have mem: "interaction_term \<in> set (terms dm_mixed)" by (simp add: dm_mixed_simps)
  have two: "length (factors interaction_term) \<noteq> 1" by (simp add: dm_mixed_simps)
  have sl: "\<forall>u \<in> set (terms dm_mixed). term_name_slices dm_mixed (term_name u) \<noteq> None"
    by (simp add: dm_mixed_simps)
  have P: "get_P_from_design_matrix lib_ref dm_mixed (DfList [5 / 2]) = Inr assembled_ref"
    by (rule assemble_dm_mixed) (simp add: df_request_def)
  have one: "length (factors spline_term) = 1" by (simp add: dm_mixed_simps)
  from multi_factor_terms_are_not_penalised
         [OF mem two sl, of lib_ref "DfList [5 / 2]" "(zeros 6 6, 0)"] P two one
    assembled_ref_entries(2)
  show ?thesis
    by (simp add: dm_mixed_simps dm_mixed_slices in_block_def slices_disjoint_def)
qed

text \<open>
  C1, as the code has it. The assembled penalty matrix is square, of the dimension of the
  structured matrix's column count. The terms that get a block are the terms of exactly
  one factor whose factor is a \<^verbatim>\<open>Spline\<close> transform, taken in term order: the \<open>m\<close>-th of them
  is solved for the scalar df request, or for the \<open>m\<close>-th entry of the list, and its block
  is its unpenalized roughness matrix times the solved \<open>\<lambda>\<close>. Every entry outside these
  blocks is zero, the blocks of smooth terms of several factors included. The slices are
  assumed to lie within the matrix and not to overlap, and each roughness matrix to be
  square of the width of its slice, as patsy and statsmodels produce them.
\<close>

theorem penalty_matrix_is_scaled_blocks:
  assumes "get_P_from_design_matrix la dm dfs = Inr big_P"
    and "\<forall>t \<in> set (terms dm). fst (term_slice dm t) \<le> snd (term_slice dm t)
            \<and> snd (term_slice dm t) \<le> shape1 (dm_values dm)"
    and "sorted_wrt (\<lambda>t u. slices_disjoint (term_slice dm t) (term_slice dm u)) (terms dm)"
    and "\<forall>t \<in> set (terms dm). \<forall>P0. penalty_of_term dm t = Some P0 \<longrightarrow>
           has_shape (snd (term_slice dm t) - fst (term_slice dm t))
                     (snd (term_slice dm t) - fst (term_slice dm t)) P0"
  shows "has_shape (shape1 (dm_values dm)) (shape1 (dm_values dm)) big_P
       \<and> (\<forall>m < length (penalised_terms dm (terms dm)).
            \<exists>P0 dfv df' lam.
              penalty_of_term dm (penalised_terms dm (terms dm) ! m) = Some P0 \<and>
              df_request dfs m = Some dfv \<and>
              df2lambda la
                (iloc_cols (dm_values dm) (term_slice dm (penalised_terms dm (terms dm) ! m)))
                P0 (Some dfv) None True (10 ^ 15) = Inr (df', lam) \<and>
              (\<forall>i j. in_block (term_slice dm (penalised_terms dm (terms dm) ! m)) i j \<longrightarrow>
                 big_P ! i ! j
                   = P0 ! (i - fst (term_slice dm (penalised_terms dm (terms dm) ! m)))
                        ! (j - fst (term_slice dm (penalised_terms dm (terms dm) ! m))) * lam))
       \<and> (\<forall>i < shape1 (dm_values dm). \<forall>j < shape1 (dm_values dm).
            (\<forall>t \<in> set (penalised_terms dm (terms dm)). \<not> in_block (term_slice dm t) i j) \<longrightarrow>
            big_P ! i ! j = 0)"
proof -
  let ?p = "shape1 (dm_values dm)"
  obtain s' where loop: "penalty_loop la dm dfs (terms dm) (zeros ?p ?p, 0) = Inr s'"
    and big: "big_P = fst s'"
    using assms(1) by (auto simp: get_P_from_design_matrix_def split: sum.splits)
  have sh0: "has_shape ?p ?p (fst (zeros ?p ?p, 0 :: nat))" by (simp add: has_shape_zeros)
  from penalty_loop_spec [OF loop sh0 assms(2,3,4)]
  show ?thesis by (simp add: big zeros_nth)
qed

theorem penalty_matrix_is_scaled_blocks_witness:
  "get_P_from_design_matrix lib_ref dm_mixed (DfList [5 / 2]) = Inr assembled_ref
   \<and> has_shape 6 6 assembled_ref
   \<and> penalised_terms dm_mixed (terms dm_mixed) = [spline_term]
   \<and> term_slice dm_mixed spline_term = (3, 6)
   \<and> penalty_of_term dm_mixed spline_term = Some penalty_ref
   \<and> df_request (DfList [5 / 2]) 0 = Some (5 / 2)
   \<and> df2lambda lib_ref (iloc_cols (dm_values dm_mixed) (3, 6)) penalty_ref (Some (5 / 2))
        None True (10 ^ 15) = Inr (5 / 2, lam_ref)
   \<and> assembled_ref ! 3 ! 3 = penalty_ref ! 0 ! 0 * lam_ref
   \<and> assembled_ref ! 4 ! 5 = penalty_ref ! 1 ! 2 * lam_ref
   \<and> assembled_ref ! 0 ! 0 = 0 \<and> assembled_ref ! 0 ! 3 = 0"
proof -
  have P: "get_P_from_design_matrix lib_ref dm_mixed (DfList [5 / 2]) = Inr assembled_ref"
    by (rule assemble_dm_mixed) (simp add: df_request_def)
  have wf: "\<forall>t \<in> set (terms dm_mixed). fst (term_slice dm_mixed t) \<le> snd (term_slice dm_mixed t)
            \<and> snd (term_slice dm_mixed t) \<le> shape1 (dm_values dm_mixed)"
    by (simp add: dm_mixed_simps(1) dm_mixed_slices dm_mixed_cols)
  have dj: "sorted_wrt (\<lambda>t u. slices_disjoint (term_slice dm_mixed t) (term_slice dm_mixed u))
              (terms dm_mixed)"
    by (simp add: dm_mixed_simps(1) dm_mixed_slices slices_disjoint_def)
  have sh: "\<forall>t \<in> set (terms dm_mixed). \<forall>P0. penalty_of_term dm_mixed t = Some P0 \<longrightarrow>
           has_shape (snd (term_slice dm_mixed t) - fst (term_slice dm_mixed t))
                     (snd (term_slice dm_mixed t) - fst (term_slice dm_mixed t)) P0"
    by (simp add: dm_mixed_simps(1) dm_mixed_slices dm_mixed_penalties has_shape_def
        penalty_ref_def)
  from penalty_matrix_is_scaled_blocks [OF P wf dj sh]
  have "has_shape (shape1 (dm_values dm_mixed)) (shape1 (dm_values dm_mixed)) assembled_ref"
    by blast
  then have "has_shape 6 6 assembled_ref" by (simp only: dm_mixed_cols)
  moreover have "df2lambda lib_ref (iloc_cols (dm_values dm_mixed) (3, 6)) penalty_ref
      (Some (5 / 2)) None True (10 ^ 15) = Inr (5 / 2, lam_ref)"
    unfolding dm_mixed_cols by (rule df2lambda_ref)
  ultimately show ?thesis
    using P dm_mixed_penalties(3)
    by (simp add: dm_mixed_slices dm_mixed_penalties(2) df_request_def assembled_ref_entries)
qed

text \<open>
  C1 as stated fails on a smooth term of two factors. In the reference design the term
  \<^verbatim>\<open>spline(x1, bs="bs", df=3, degree=2):x2\<close> is a smooth term (its name holds the marker)
  at the slice \<open>(0, 3)\<close>. Whatever the library computes, the assembler leaves its block as
  it is, zero. The roughness matrix of its spline is \<open>penalty_ref\<close>, and the solver, run on
  the columns of the term for the df request \<open>5/2\<close>, gives \<open>\<lambda> = lam_ref\<close>, about \<open>0.0104\<close>:
  the claimed block \<open>penalty_ref * lam_ref\<close> has the entry \<open>4 * lam_ref\<close>, above \<open>0.04\<close>,
  where the assembled matrix has \<open>0\<close>; the block equals the roughness matrix times \<open>\<lambda>\<close>
  for no \<open>\<lambda>\<close> but \<open>0\<close>.
\<close>

theorem smooth_interaction_block_is_zero:
  "get_P_from_design_matrix lib_ref dm_mixed (DfScalar (5 / 2)) = Inr assembled_ref
   \<and> interaction_term \<in> set (terms dm_mixed)
   \<and> str_contains ''spline'' (term_name interaction_term)
   \<and> term_slice dm_mixed interaction_term = (0, 3)
   \<and> factors interaction_term = [spline_q, ''x2'']
   \<and> factor_infos dm_mixed spline_q = Some spline_factor_info
   \<and> get_penalty_matrix_from_factor_info spline_factor_info = Inr (Some [penalty_ref])
   \<and> (\<forall>la dfs s. penalty_step la dm_mixed dfs interaction_term s = Inr s)
   \<and> df2lambda lib_ref (iloc_cols (dm_values dm_mixed) (0, 3)) penalty_ref (Some (5 / 2))
        None True (10 ^ 15) = Inr (5 / 2, lam_ref)
   \<and> mat_scale penalty_ref lam_ref ! 0 ! 0 = 4 * lam_ref \<and> 1 / 25 < 4 * lam_ref
   \<and> assembled_ref ! 0 ! 0 = 0
   \<and> assembled_ref ! 0 ! 0 \<noteq> mat_scale penalty_ref lam_ref ! 0 ! 0
   \<and> (\<forall>lam. (mat_scale penalty_ref lam ! 0 ! 0 = assembled_ref ! 0 ! 0) = (lam = 0))"
proof -
  have P: "get_P_from_design_matrix lib_ref dm_mixed (DfScalar (5 / 2)) = Inr assembled_ref"
    by (rule assemble_dm_mixed) (simp add: df_request_def)
  have step: "penalty_step la dm_mixed dfs interaction_term s = Inr s" for la dfs s
    by (rule penalty_step_multi_factor [of _ _ "(0, 3)"]) (simp_all add: dm_mixed_simps)
  have solve: "df2lambda lib_ref (iloc_cols (dm_values dm_mixed) (0, 3)) penalty_ref
      (Some (5 / 2)) None True (10 ^ 15) = Inr (5 / 2, lam_ref)"
    unfolding dm_mixed_cols by (rule df2lambda_ref)
  have sc: "mat_scale penalty_ref lam ! 0 ! 0 = 4 * lam" for lam
    by (simp add: mat_scale_def penalty_ref_def)
  have pos: "1 / 25 < 4 * lam_ref" by (simp add: lam_ref_def)
  show ?thesis
    using P step solve pos spline_in_interaction penalty_of_spline_factor
    by (simp add: dm_mixed_simps dm_mixed_slices sc assembled_ref_entries)
qed

section \<open>Properties of the formula handling\<close>







lemma orthogonalize_no_splines:
  "orthogonalize_spline_wrt_non_splines la M empty_term_info non_spline_info = Inr M"
  by (simp add: orthogonalize_spline_wrt_non_splines_def empty_term_info_def)

lemma external_term_d1:
  assumes "map_of (df_columns data) ''x1'' = Some c1"
    and "map_of (df_columns data) ''x2'' = Some c2"
    and "map_of (df_columns data) ''x3'' = Some c3"
    and "map_of dmd ''d1'' = Some m"
    and "(case model m of ModelString code \<Rightarrow> py_eval env code | ModelHandle h \<Rightarrow> Inr h) = Inr h"
  shows "unstructured_loop env data dmd [''d1(x2,x1,x3)''] (md, pfc)
           = Inr (dict_set ''d1'' (map (\<lambda>i. [c2 ! i, c1 ! i, c3 ! i]) [0..<df_nrows data]) md,
                  pfc\<lparr>deep_models_dict := dict_set ''d1'' h (deep_models_dict pfc),
                       deep_shapes := dict_set ''d1'' (output_shape m) (deep_shapes pfc)\<rparr>)"
  using assms by (simp add: select_to_numpy_def Let_def)



lemma split_intercept_and_net:
  assumes "''d1'' \<in> set nets" and "''1'' \<notin> set nets"
  shows "split_formula ''~1+d1(x2,x1,x3)'' nets = (''1'', [''d1(x2,x1,x3)''])"
  using assms by (simp add: split_formula_def)

lemma info_intercept_only:
  assumes "terms sm = [t0]" and "factors t0 = []"
    and "term_name_slices sm (term_name t0) = Some sl"
    and "\<not> str_contains ''spline'' (term_name t0)"
  shows "get_info_from_design_matrix cn sm names
           = Inr (empty_term_info, append_term_info empty_term_info [] sl (term_name t0))"
  using assms
  by (simp add: get_info_from_design_matrix_def get_all_input_features_for_term_def)

lemma assemble_intercept_only:
  assumes "terms sm = [t0]" and "factors t0 = []"
    and "term_name_slices sm (term_name t0) = Some sl"
  shows "get_P_from_design_matrix la sm dfs
           = Inr (zeros (shape1 (dm_values sm)) (shape1 (dm_values sm)))"
  using assms by (simp add: get_P_from_design_matrix_def penalty_step_def)

text \<open>
  C7. For the formula \<^verbatim>\<open>~1+d1(x2,x1,x3)\<close>, where \<^verbatim>\<open>d1\<close> is a registered external model (and
  no model is named \<^verbatim>\<open>1\<close>) and the data set has the features \<^verbatim>\<open>x1\<close>, \<^verbatim>\<open>x2\<close>, \<^verbatim>\<open>x3\<close>: the
  matrix recorded for \<^verbatim>\<open>d1\<close> has the rows \<open>[x2, x1, x3]\<close> of the data set, in this order,
  and the structured matrix is the design matrix of \<^verbatim>\<open>~1\<close>. The formula engine is asked
  for the formula \<^verbatim>\<open>1\<close>, which patsy reads as \<^verbatim>\<open>~1\<close>; its answer is the intercept term, a
  term without factors.
\<close>

theorem external_model_partition:
  assumes "formulas param = Some ''~1+d1(x2,x1,x3)''"
    and "map_of dmd ''d1'' = Some m" and "''1'' \<notin> set (map fst dmd)"
    and "(case model m of ModelString code \<Rightarrow> py_eval env code | ModelHandle h \<Rightarrow> Inr h) = Inr h"
    and "map_of (df_columns data) ''x1'' = Some c1"
    and "map_of (df_columns data) ''x2'' = Some c2"
    and "map_of (df_columns data) ''x3'' = Some c3"
    and "dof param = Some dfs"
    and "dmatrix env ''~1'' data = Inr sm" and "dmatrix env ''1'' data = dmatrix env ''~1'' data"
    and "terms sm = [icpt]" and "factors icpt = []"
    and "term_name_slices sm (term_name icpt) = Some sl"
    and "\<not> str_contains ''spline'' (term_name icpt)"
  shows "\<exists>pfc md info.
           parse_formulas la env [param] formulas data dmd dof
             = Inr ([(param, pfc)], [(param, md)], [(param, info)])
           \<and> map_of md ''d1'' = Some (map (\<lambda>i. [c2 ! i, c1 ! i, c3 ! i]) [0..<df_nrows data])
           \<and> map_of md ''structured'' = Some (dm_values sm)
           \<and> pfc_P pfc = zeros (shape1 (dm_values sm)) (shape1 (dm_values sm))"
proof -
  have d1: "''d1'' \<in> set (map fst dmd)"
    using assms(2) by (metis map_of_eq_None_iff option.distinct(1) set_map)
  have split: "split_formula ''~1+d1(x2,x1,x3)'' (map fst dmd) = (''1'', [''d1(x2,x1,x3)''])"
    using d1 assms(3) by (rule split_intercept_and_net)
  have sm: "dmatrix env ''1'' data = Inr sm" using assms(9,10) by simp
  have param:
    "parse_param la env data dmd dof param ''~1+d1(x2,x1,x3)''
       = Inr (\<lparr>struct_shapes = shape1 (dm_values sm),
               pfc_P = zeros (shape1 (dm_values sm)) (shape1 (dm_values sm)),
               deep_models_dict = [(''d1'', h)], deep_shapes = [(''d1'', output_shape m)]\<rparr>,
              [(''structured'', dm_values sm),
               (''d1'', map (\<lambda>i. [c2 ! i, c1 ! i, c3 ! i]) [0..<df_nrows data])],
              empty_term_info)"
    unfolding parse_param_def split
    by (simp add: assms(8) sm info_intercept_only [OF assms(11-14)]
        assemble_intercept_only [OF assms(11-13)] orthogonalize_no_splines
        external_term_d1 [OF assms(5,6,7,2,4)] del: unstructured_loop.simps)
  show ?thesis
    by (simp add: parse_formulas_def checkups_def assms(1) param)
qed

theorem external_model_partition_witness:
  "map_of dmd_ref ''d1'' = Some \<lparr>model = ModelHandle 0, output_shape = 42\<rparr>
   \<and> ''1'' \<notin> set (map fst dmd_ref)
   \<and> dmatrix env_ref ''~1'' data_ref = Inr (intercept_design 2)
   \<and> dmatrix env_ref ''1'' data_ref = dmatrix env_ref ''~1'' data_ref
   \<and> (\<exists>pfc md info.
         parse_formulas lib_1x1 env_ref [''loc''] [''loc'' \<mapsto> ''~1+d1(x2,x1,x3)''] data_ref
           dmd_ref [''loc'' \<mapsto> DfScalar 4]
           = Inr ([(''loc'', pfc)], [(''loc'', md)], [(''loc'', info)])
         \<and> map_of md ''d1'' = Some [[3, 1, 5], [4, 2, 6]]
         \<and> map_of md ''structured'' = Some [[1], [1]]
         \<and> pfc_P pfc = [[0]])"
proof -
  have m: "map_of dmd_ref ''d1'' = Some \<lparr>model = ModelHandle 0, output_shape = 42\<rparr>"
    and no1: "''1'' \<notin> set (map fst dmd_ref)"
    by (simp_all add: dmd_ref_def)
  have sm: "dmatrix env_ref ''~1'' data_ref = Inr (intercept_design 2)"
    and same: "dmatrix env_ref ''1'' data_ref = dmatrix env_ref ''~1'' data_ref"
    by (simp_all add: env_ref_def data_ref_def)
  have cols: "map_of (df_columns data_ref) ''x1'' = Some [1, 2]"
    "map_of (df_columns data_ref) ''x2'' = Some [3, 4]"
    "map_of (df_columns data_ref) ''x3'' = Some [5, 6]"
    by (simp_all add: data_ref_def)
  have rows: "map (\<lambda>i. [[3, 4] ! i, [1, 2] ! i, [5, 6 :: real] ! i]) [0..<df_nrows data_ref]
      = [[3, 1, 5], [4, 2, 6]]"
    by (simp add: data_ref_def upt_rec [of 0] numeral_2_eq_2)
  have vals: "dm_values (intercept_design 2) = [[1], [1]]"
    by (simp add: intercept_design_def numeral_2_eq_2)
  from external_model_partition
         [where param = "''loc''" and formulas = "[''loc'' \<mapsto> ''~1+d1(x2,x1,x3)'']"
            and dmd = dmd_ref and env = env_ref and data = data_ref and la = lib_1x1
            and dof = "[''loc'' \<mapsto> DfScalar 4]" and dfs = "DfScalar 4"
            and sm = "intercept_design 2" and h = 0
            and icpt = "\<lparr>term_name = ''Intercept'', factors = []\<rparr>" and sl = "(0, 1)",
          OF _ m no1 _ cols _ sm same]
  have "\<exists>pfc md info.
         parse_formulas lib_1x1 env_ref [''loc''] [''loc'' \<mapsto> ''~1+d1(x2,x1,x3)''] data_ref
           dmd_ref [''loc'' \<mapsto> DfScalar 4]
           = Inr ([(''loc'', pfc)], [(''loc'', md)], [(''loc'', info)])
         \<and> map_of md ''d1''
             = Some (map (\<lambda>i. [[3, 4] ! i, [1, 2] ! i, [5, 6] ! i]) [0..<df_nrows data_ref])
         \<and> map_of md ''structured'' = Some (dm_values (intercept_design 2))
         \<and> pfc_P pfc = zeros (shape1 (dm_values (intercept_design 2)))
                         (shape1 (dm_values (intercept_design 2)))"
    by (simp add: intercept_design_def)
  then show ?thesis
    unfolding rows vals(1) using m no1 sm same by (simp add: shape1_def zeros_def)
qed

section \<open>Properties of the orthogonalizer\<close>

lemma sum_list_upt: "sum_list (map f [0..<n]) = (\<Sum>i<n. f i)"
  by (simp add: interv_sum_list_conv_sum_set_nat atLeast0LessThan)

lemma dot_columns:
  assumes "length A = n" and "length B = n"
  shows "dot (column A c) (column B c') = (\<Sum>r<n. A ! r ! c * B ! r ! c')"
proof -
  have "map2 (*) (column A c) (column B c') = map (\<lambda>r. A ! r ! c * B ! r ! c') [0..<n]"
    using assms by (intro nth_equalityI) (simp_all add: column_def)
  then show ?thesis by (simp add: dot_def sum_list_upt)
qed

lemma projection_orthogonal:
  fixes Q :: "nat \<Rightarrow> nat \<Rightarrow> real" and R X C X' :: "nat \<Rightarrow> real"
  assumes orth: "\<And>i j. i < k \<Longrightarrow> j < k \<Longrightarrow> (\<Sum>r<N. Q r i * Q r j) = (if i = j then 1 else 0)"
    and C: "\<And>r. r < N \<Longrightarrow> C r = (\<Sum>i<k. Q r i * R i)"
    and X': "\<And>r. r < N \<Longrightarrow> X' r = X r - (\<Sum>l<N. (\<Sum>i<k. Q r i * Q l i) * X l)"
  shows "(\<Sum>r<N. C r * X' r) = 0"
proof -
  define w where "w i = (\<Sum>l<N. Q l i * X l)" for i
  have proj: "(\<Sum>l<N. (\<Sum>i<k. Q r i * Q l i) * X l) = (\<Sum>i<k. Q r i * w i)" for r
  proof -
    have "(\<Sum>l<N. (\<Sum>i<k. Q r i * Q l i) * X l) = (\<Sum>l<N. \<Sum>i<k. Q r i * (Q l i * X l))"
      by (simp add: sum_distrib_right mult.assoc)
    also have "\<dots> = (\<Sum>i<k. \<Sum>l<N. Q r i * (Q l i * X l))" by (rule sum.swap)
    also have "\<dots> = (\<Sum>i<k. Q r i * w i)" by (simp add: w_def sum_distrib_left)
    finally show ?thesis .
  qed
  have first: "(\<Sum>r<N. C r * X r) = (\<Sum>i<k. R i * w i)"
  proof -
    have "(\<Sum>r<N. C r * X r) = (\<Sum>r<N. \<Sum>i<k. R i * (Q r i * X r))"
      by (rule sum.cong) (simp_all add: C sum_distrib_right mult.assoc mult.left_commute)
    also have "\<dots> = (\<Sum>i<k. \<Sum>r<N. R i * (Q r i * X r))" by (rule sum.swap)
    also have "\<dots> = (\<Sum>i<k. R i * w i)" by (simp add: w_def sum_distrib_left)
    finally show ?thesis .
  qed
  have second: "(\<Sum>r<N. C r * (\<Sum>j<k. Q r j * w j)) = (\<Sum>i<k. R i * w i)"
  proof -
    have "(\<Sum>r<N. C r * (\<Sum>j<k. Q r j * w j))
        = (\<Sum>r<N. \<Sum>i<k. \<Sum>j<k. R i * w j * (Q r i * Q r j))"
      by (rule sum.cong) (simp_all add: C sum_product algebra_simps)
    also have "\<dots> = (\<Sum>i<k. \<Sum>r<N. \<Sum>j<k. R i * w j * (Q r i * Q r j))" by (rule sum.swap)
    also have "\<dots> = (\<Sum>i<k. \<Sum>j<k. \<Sum>r<N. R i * w j * (Q r i * Q r j))"
      by (rule sum.cong [OF refl]) (rule sum.swap)
    also have "\<dots> = (\<Sum>i<k. \<Sum>j<k. R i * w j * (if i = j then 1 else 0))"
      by (intro sum.cong refl) (simp add: sum_distrib_left [symmetric] orth)
    also have "\<dots> = (\<Sum>i<k. \<Sum>j<k. if i = j then R i * w j else 0)"
      by (intro sum.cong refl) simp
    also have "\<dots> = (\<Sum>i<k. R i * w i)"
      by (intro sum.cong refl) (simp add: sum.delta')
    finally show ?thesis .
  qed
  have "(\<Sum>r<N. C r * X' r) = (\<Sum>r<N. C r * X r - C r * (\<Sum>j<k. Q r j * w j))"
    by (rule sum.cong) (simp_all add: X' proj right_diff_distrib)
  also have "\<dots> = (\<Sum>r<N. C r * X r) - (\<Sum>r<N. C r * (\<Sum>j<k. Q r j * w j))"
    by (rule sum_subtractf)
  finally show ?thesis by (simp add: first second)
qed

lemma has_shape_nth: "has_shape n m M \<Longrightarrow> i < n \<Longrightarrow> length (M ! i) = m"
  by (simp add: has_shape_def)

lemma matmul_entries:
  assumes "matmul A B = Inr AB"
  shows "shape1 A = shape0 B" and "has_shape (length A) (shape1 B) AB"
    and "i < length A \<Longrightarrow> j < shape1 B \<Longrightarrow> AB ! i ! j = (\<Sum>l<shape0 B. A ! i ! l * B ! l ! j)"
proof -
  show s: "shape1 A = shape0 B" using assms by (auto simp: matmul_def split: if_splits)
  have AB: "AB = map (\<lambda>r. map (\<lambda>j. sum_list (map (\<lambda>k. r ! k * B ! k ! j) [0..<shape0 B]))
                              [0..<shape1 B]) A"
    using assms s by (simp add: matmul_def)
  show "has_shape (length A) (shape1 B) AB" by (simp add: AB has_shape_def)
  show "AB ! i ! j = (\<Sum>l<shape0 B. A ! i ! l * B ! l ! j)" if "i < length A" "j < shape1 B"
    using that by (simp add: AB sum_list_upt)
qed

lemma mat_T_entries:
  assumes "has_shape n k Q" and "0 < n"
  shows "has_shape k n (mat_T Q)" and "i < k \<Longrightarrow> r < n \<Longrightarrow> mat_T Q ! i ! r = Q ! r ! i"
proof -
  have s: "shape1 Q = k" using assms by (rule shape1_has_shape)
  have len: "length Q = n" using assms(1) by (simp add: has_shape_def)
  show "has_shape k n (mat_T Q)" by (simp add: mat_T_def s has_shape_def len)
  show "mat_T Q ! i ! r = Q ! r ! i" if "i < k" "r < n"
    using that by (simp add: mat_T_def s len)
qed

lemma orthogonalize_entries:
  assumes "orthogonalize la C X = Inr X'" and "qr la C = Inr (Q, R)"
    and "has_shape N k Q" and "has_shape N w X" and "0 < N"
  shows "has_shape N w X'"
    and "r < N \<Longrightarrow> x < w \<Longrightarrow>
           X' ! r ! x = X ! r ! x - (\<Sum>l<N. (\<Sum>i<k. Q ! r ! i * Q ! l ! i) * X ! l ! x)"
proof -
  obtain Pm PX where Pm: "matmul Q (mat_T Q) = Inr Pm" and PX: "matmul Pm X = Inr PX"
    and X': "X' = mat_sub X PX"
    using assms(1,2) by (auto simp: orthogonalize_def split: sum.splits)
  have lenQ: "length Q = N" and lenX: "length X = N"
    using assms(3,4) by (simp_all add: has_shape_def)
  have sX: "shape0 X = N" "shape1 X = w"
    using assms(4,5) by (simp_all add: shape0_has_shape shape1_has_shape)
  have T: "has_shape k N (mat_T Q)" using assms(3,5) by (rule mat_T_entries(1))
  have shPm: "has_shape N (shape1 (mat_T Q)) Pm"
    using matmul_entries(2) [OF Pm] by (simp add: lenQ)
  have "shape1 Pm = N" using matmul_entries(1) [OF PX] sX by simp
  moreover have "shape1 Pm = shape1 (mat_T Q)" using shPm assms(5) by (rule shape1_has_shape)
  ultimately have sT: "shape1 (mat_T Q) = N" by simp
  have kpos: "0 < k"
  proof (rule ccontr)
    assume "\<not> 0 < k"
    then have "mat_T Q = []" using T by (simp add: has_shape_def)
    then show False using sT assms(5) by (simp add: shape1_def)
  qed
  have s0T: "shape0 (mat_T Q) = k" using T by (rule shape0_has_shape)
  have Pm_entry: "Pm ! r ! l = (\<Sum>i<k. Q ! r ! i * Q ! l ! i)" if "r < N" "l < N" for r l
  proof -
    have "Pm ! r ! l = (\<Sum>i<k. Q ! r ! i * mat_T Q ! i ! l)"
      using matmul_entries(3) [OF Pm, of r l] that by (simp add: lenQ sT s0T)
    also have "\<dots> = (\<Sum>i<k. Q ! r ! i * Q ! l ! i)"
      using mat_T_entries(2) [OF assms(3,5)] that by (intro sum.cong refl) simp
    finally show ?thesis .
  qed
  have lenPm: "length Pm = N" using shPm by (simp add: has_shape_def)
  have shPX: "has_shape N w PX" using matmul_entries(2) [OF PX] by (simp add: lenPm sX)
  have PX_entry: "PX ! r ! x = (\<Sum>l<N. (\<Sum>i<k. Q ! r ! i * Q ! l ! i) * X ! l ! x)"
    if "r < N" "x < w" for r x
  proof -
    have "PX ! r ! x = (\<Sum>l<N. Pm ! r ! l * X ! l ! x)"
      using matmul_entries(3) [OF PX, of r x] that by (simp add: lenPm sX)
    also have "\<dots> = (\<Sum>l<N. (\<Sum>i<k. Q ! r ! i * Q ! l ! i) * X ! l ! x)"
      using Pm_entry that by (intro sum.cong refl) simp
    finally show ?thesis .
  qed
  have lenPX: "length PX = N" using shPX by (simp add: has_shape_def)
  show "has_shape N w X'"
    using assms(4) shPX by (auto simp: X' mat_sub_def has_shape_def set_zip)
  show "X' ! r ! x = X ! r ! x - (\<Sum>l<N. (\<Sum>i<k. Q ! r ! i * Q ! l ! i) * X ! l ! x)"
    if "r < N" "x < w"
    using that PX_entry [OF that] has_shape_nth [OF assms(4) that(1)] has_shape_nth [OF shPX that(1)]
    by (simp add: X' mat_sub_def lenX lenPX)
qed

lemma iloc_cols_entries:
  assumes "has_shape N p M" and "fst sl \<le> snd sl" and "snd sl \<le> p"
  shows "has_shape N (snd sl - fst sl) (iloc_cols M sl)"
    and "r < N \<Longrightarrow> x < snd sl - fst sl \<Longrightarrow> iloc_cols M sl ! r ! x = M ! r ! (fst sl + x)"
proof -
  show "has_shape N (snd sl - fst sl) (iloc_cols M sl)"
    using assms by (auto simp: iloc_cols_def has_shape_def)
  show "iloc_cols M sl ! r ! x = M ! r ! (fst sl + x)" if "r < N" "x < snd sl - fst sl"
    using that assms by (simp add: iloc_cols_def has_shape_def)
qed

lemma set_iloc_cols_entries:
  assumes "set_iloc_cols M sl V = Inr M'" and "has_shape N p M" and "0 < N"
    and "fst sl \<le> snd sl" and "snd sl \<le> p"
  shows "has_shape N p M'"
    and "r < N \<Longrightarrow> c < p \<Longrightarrow>
           M' ! r ! c = (if in_slice sl c then V ! r ! (c - fst sl) else M ! r ! c)"
proof -
  have s: "shape0 M = N" "shape1 M = p"
    using assms(2,3) by (simp_all add: shape0_has_shape shape1_has_shape)
  have m: "min (fst sl) p = fst sl" "min (snd sl) p = snd sl" "max (fst sl) (snd sl) = snd sl"
    using assms(4,5) by auto
  have V: "shape0 V = N" "\<forall>r \<in> set V. length r = snd sl - fst sl"
    and M': "M' = map (\<lambda>i. take (fst sl) (M ! i) @ V ! i @ drop (snd sl) (M ! i)) [0..<N]"
    using assms(1) by (auto simp: set_iloc_cols_def Let_def s m split: if_splits)
  have lenV: "length (V ! r) = snd sl - fst sl" if "r < N" for r
    using V that by (simp add: shape0_def)
  have lenM: "length (M ! r) = p" if "r < N" for r
    using assms(2) that by (rule has_shape_nth)
  show "has_shape N p M'"
    using assms(4,5) lenV lenM by (auto simp: M' has_shape_def)
  show "M' ! r ! c = (if in_slice sl c then V ! r ! (c - fst sl) else M ! r ! c)"
    if "r < N" "c < p"
    using that assms(4,5) lenV [OF that(1)] lenM [OF that(1)]
    by (auto simp: M' in_slice_def nth_append)
qed

lemma concat_nth_block:
  assumes "\<forall>b \<in> set pre. length (f b) = wd b" and "x < length (f b0)"
  shows "concat (map f (pre @ b0 # post)) ! (sum_list (map wd pre) + x) = f b0 ! x"
proof -
  have "length (concat (map f pre)) = sum_list (map wd pre)"
    using assms(1) by (induction pre) simp_all
  then show ?thesis using assms(2) by (simp add: nth_append)
qed

lemma concatenate_axis1_columns:
  fixes sel :: "((nat \<times> nat) \<times> string list) list"
  assumes "concatenate_axis1 (map (\<lambda>ns. iloc_cols M (fst ns)) sel) = Inr C"
    and "has_shape N p M" and "0 < N"
    and "\<forall>ns \<in> set sel. fst (fst ns) \<le> snd (fst ns) \<and> snd (fst ns) \<le> p"
    and "ns \<in> set sel" and "in_slice (fst ns) c"
  shows "length C = N"
    and "\<exists>idx < shape1 C. \<forall>r < N. C ! r ! idx = M ! r ! c"
proof -
  let ?blocks = "map (\<lambda>ns. iloc_cols M (fst ns)) sel"
  have lenM: "length M = N" using assms(2) by (simp add: has_shape_def)
  obtain B0 Bs where blocks: "?blocks = B0 # Bs"
    using assms(5) by (cases ?blocks) auto
  have "B0 \<in> set ?blocks" by (simp add: blocks)
  then have "shape0 B0 = N" by (auto simp: shape0_def iloc_cols_def lenM)
  then have C: "C = map (\<lambda>i. concat (map (\<lambda>B. B ! i) ?blocks)) [0..<N]"
    using assms(1) by (auto simp: concatenate_axis1_def blocks split: if_splits)
  show len: "length C = N" by (simp add: C)
  obtain pre post where sel: "sel = pre @ ns # post"
    using assms(5) by (meson split_list)
  define wd where "wd b = snd (fst b) - fst (fst b)" for b :: "(nat \<times> nat) \<times> string list"
  have width: "length (iloc_cols M (fst b) ! r) = wd b" if "b \<in> set sel" "r < N" for b r
    using iloc_cols_entries(1) [OF assms(2), of "fst b"] assms(4) that
    by (simp add: has_shape_def wd_def)
  have row: "C ! r = concat (map (\<lambda>b. iloc_cols M (fst b) ! r) sel)" if "r < N" for r
    using that by (simp add: C comp_def)
  let ?idx = "sum_list (map wd pre) + (c - fst (fst ns))"
  have x: "c - fst (fst ns) < wd ns" using assms(6) by (auto simp: in_slice_def wd_def)
  have entry: "C ! r ! ?idx = M ! r ! c" if "r < N" for r
  proof -
    have "C ! r ! ?idx = iloc_cols M (fst ns) ! r ! (c - fst (fst ns))"
      unfolding row [OF that] sel
      using width [of _ r] that x width [OF assms(5) that]
      by (intro concat_nth_block) (auto simp: sel)
    also have "\<dots> = M ! r ! (fst (fst ns) + (c - fst (fst ns)))"
      using iloc_cols_entries(2) [OF assms(2), of "fst ns" r] assms(4,5) that x
      by (simp add: wd_def)
    finally show ?thesis using assms(6) by (simp add: in_slice_def)
  qed
  have "length (C ! 0) = sum_list (map wd sel)"
  proof -
    have "length (concat (map (\<lambda>b. iloc_cols M (fst b) ! 0) sel)) = sum_list (map wd sel)"
      using width [of _ 0] assms(3)
      by (simp add: length_concat comp_def cong: map_cong)
    then show ?thesis using row [OF assms(3)] by simp
  qed
  then have "shape1 C = sum_list (map wd sel)"
    using len assms(3) by (cases C) (simp_all add: shape1_def)
  then have "?idx < shape1 C" using x by (simp add: sel)
  then show "\<exists>idx < shape1 C. \<forall>r < N. C ! r ! idx = M ! r ! c"
    using entry by blast
qed

lemma orthogonalize_step_orthogonal:
  fixes sel :: "((nat \<times> nat) \<times> string list) list"
  assumes C: "concatenate_axis1 (map (\<lambda>ns. iloc_cols M (fst ns)) sel) = Inr C"
    and X': "orthogonalize la C (iloc_cols M sl) = Inr X'"
    and shM: "has_shape N p M" and N: "0 < N"
    and sl: "fst sl \<le> snd sl" "snd sl \<le> p"
    and wfn: "\<forall>ns \<in> set sel. fst (fst ns) \<le> snd (fst ns) \<and> snd (fst ns) \<le> p"
    and qrc: "\<forall>C Q R. qr la C = Inr (Q, R) \<longrightarrow> is_qr C Q R"
    and ns: "ns \<in> set sel" and c: "in_slice sl c" and c': "in_slice (fst ns) c'"
  shows "(\<Sum>r<N. X' ! r ! (c - fst sl) * M ! r ! c') = 0"
proof -
  obtain Q R where qr: "qr la C = Inr (Q, R)"
    using X' by (auto simp: orthogonalize_def split: sum.splits)
  then have isqr: "is_qr C Q R" using qrc by blast
  have lenC: "length C = N"
    using concatenate_axis1_columns(1) [OF C shM N wfn ns c'] .
  obtain idx where idx: "idx < shape1 C" "\<forall>r < N. C ! r ! idx = M ! r ! c'"
    using concatenate_axis1_columns(2) [OF C shM N wfn ns c'] by blast
  have shQ: "has_shape N (shape1 Q) Q" using isqr by (simp add: is_qr_def lenC)
  have shX: "has_shape N (snd sl - fst sl) (iloc_cols M sl)"
    using shM sl by (rule iloc_cols_entries(1))
  have x: "c - fst sl < snd sl - fst sl" using c by (auto simp: in_slice_def)
  have "(\<Sum>r<N. C ! r ! idx * X' ! r ! (c - fst sl)) = 0"
  proof (rule projection_orthogonal [where k = "shape1 Q" and Q = "\<lambda>r i. Q ! r ! i"
        and R = "\<lambda>i. R ! i ! idx" and X = "\<lambda>r. iloc_cols M sl ! r ! (c - fst sl)"])
    show "(\<Sum>r<N. Q ! r ! i * Q ! r ! j) = (if i = j then 1 else 0)"
      if "i < shape1 Q" "j < shape1 Q" for i j
      using isqr that by (simp add: is_qr_def lenC)
    show "C ! r ! idx = (\<Sum>i<shape1 Q. Q ! r ! i * R ! i ! idx)" if "r < N" for r
      using isqr that idx(1) by (simp add: is_qr_def lenC)
    show "X' ! r ! (c - fst sl)
        = iloc_cols M sl ! r ! (c - fst sl)
          - (\<Sum>l<N. (\<Sum>i<shape1 Q. Q ! r ! i * Q ! l ! i) * iloc_cols M sl ! l ! (c - fst sl))"
      if "r < N" for r
      using orthogonalize_entries(2) [OF X' qr shQ shX N that x] .
  qed
  moreover have "(\<Sum>r<N. X' ! r ! (c - fst sl) * M ! r ! c')
      = (\<Sum>r<N. C ! r ! idx * X' ! r ! (c - fst sl))"
    using idx(2) by (intro sum.cong refl) (simp add: mult.commute)
  ultimately show ?thesis by simp
qed

lemma in_disjoint_slices: "slices_disjoint s t \<Longrightarrow> in_slice s c \<Longrightarrow> \<not> in_slice t c"
  by (auto simp: slices_disjoint_def in_slice_def)

lemma orthogonalize_loop_spec:
  assumes "orthogonalize_loop la splines non_splines M = Inr M'"
    and "has_shape N p M" and "0 < N"
    and "\<forall>s \<in> set splines. fst (fst s) \<le> snd (fst s) \<and> snd (fst s) \<le> p"
    and "\<forall>ns \<in> set non_splines. fst (fst ns) \<le> snd (fst ns) \<and> snd (fst ns) \<le> p"
    and "\<forall>s \<in> set splines. \<forall>ns \<in> set non_splines. slices_disjoint (fst s) (fst ns)"
    and "sorted_wrt (\<lambda>s t. slices_disjoint (fst s) (fst t)) splines"
    and "\<forall>C Q R. qr la C = Inr (Q, R) \<longrightarrow> is_qr C Q R"
  shows "has_shape N p M'
       \<and> (\<forall>c < p. (\<forall>s \<in> set splines. \<not> in_slice (fst s) c) \<longrightarrow> (\<forall>r < N. M' ! r ! c = M ! r ! c))
       \<and> (\<forall>s \<in> set splines. \<forall>ns \<in> set non_splines. set (snd ns) \<subseteq> set (snd s) \<longrightarrow>
            (\<forall>c c'. in_slice (fst s) c \<and> in_slice (fst ns) c' \<longrightarrow>
               (\<Sum>r<N. M' ! r ! c * M' ! r ! c') = 0))"
  using assms
proof (induction splines arbitrary: M)
  case Nil
  then show ?case by simp
next
  case (Cons sp rest)
  let ?sel = "filter (\<lambda>ns. set (snd ns) \<subseteq> set (snd sp)) non_splines"
  have wf_sp: "fst (fst sp) \<le> snd (fst sp)" "snd (fst sp) \<le> p"
    and wf_rest: "\<forall>s \<in> set rest. fst (fst s) \<le> snd (fst s) \<and> snd (fst s) \<le> p"
    and dj_rest: "\<forall>s \<in> set rest. \<forall>ns \<in> set non_splines. slices_disjoint (fst s) (fst ns)"
    and dj_sp: "\<forall>ns \<in> set non_splines. slices_disjoint (fst sp) (fst ns)"
    and djs_rest: "sorted_wrt (\<lambda>s t. slices_disjoint (fst s) (fst t)) rest"
    and djs_sp: "\<forall>s \<in> set rest. slices_disjoint (fst sp) (fst s)"
    using Cons.prems(4,6,7) by auto
  have wf_sel: "\<forall>ns \<in> set ?sel. fst (fst ns) \<le> snd (fst ns) \<and> snd (fst ns) \<le> p"
    using Cons.prems(5) by auto
  show ?case
  proof (cases "?sel = []")
    case True
    then have run: "orthogonalize_loop la rest non_splines M = Inr M'"
      using Cons.prems(1) by (simp add: Let_def)
    note IH = Cons.IH [OF run Cons.prems(2,3) wf_rest Cons.prems(5) dj_rest djs_rest Cons.prems(8)]
    have none: "\<not> set (snd ns) \<subseteq> set (snd sp)" if "ns \<in> set non_splines" for ns
    proof
      assume "set (snd ns) \<subseteq> set (snd sp)"
      then have "ns \<in> set ?sel" using that by simp
      then show False using True by simp
    qed
    show ?thesis using IH none by auto
  next
    case False
    then obtain C X1 M1 where
      C: "concatenate_axis1 (map (\<lambda>ns. iloc_cols M (fst ns)) ?sel) = Inr C"
      and X1: "orthogonalize la C (iloc_cols M (fst sp)) = Inr X1"
      and M1: "set_iloc_cols M (fst sp) X1 = Inr M1"
      and run: "orthogonalize_loop la rest non_splines M1 = Inr M'"
      using Cons.prems(1) by (auto simp: Let_def split: sum.splits)
    have shM1: "has_shape N p M1"
      using set_iloc_cols_entries(1) [OF M1 Cons.prems(2,3) wf_sp] .
    have M1_entry: "M1 ! r ! c = (if in_slice (fst sp) c then X1 ! r ! (c - fst (fst sp)) else M ! r ! c)"
      if "r < N" "c < p" for r c
      using set_iloc_cols_entries(2) [OF M1 Cons.prems(2,3) wf_sp that] .
    note IH = Cons.IH [OF run shM1 Cons.prems(3) wf_rest Cons.prems(5) dj_rest djs_rest Cons.prems(8)]
    have frame_rest: "M' ! r ! c = M1 ! r ! c"
      if "c < p" "\<forall>s \<in> set rest. \<not> in_slice (fst s) c" "r < N" for r c
      using IH that by blast
    have frame: "M' ! r ! c = M ! r ! c"
      if "c < p" "\<forall>s \<in> set (sp # rest). \<not> in_slice (fst s) c" "r < N" for r c
      using frame_rest [of c r] M1_entry [of r c] that by simp
    have orth_sp: "(\<Sum>r<N. M' ! r ! c * M' ! r ! c') = 0"
      if ns: "ns \<in> set non_splines" "set (snd ns) \<subseteq> set (snd sp)"
        and cc: "in_slice (fst sp) c" "in_slice (fst ns) c'" for ns c c'
    proof -
      have sel: "ns \<in> set ?sel" using ns by simp
      have cp: "c < p" using cc(1) wf_sp by (auto simp: in_slice_def)
      have c'p: "c' < p" using cc(2) Cons.prems(5) ns(1) by (auto simp: in_slice_def)
      have c_rest: "\<forall>s \<in> set rest. \<not> in_slice (fst s) c"
        using djs_sp cc(1) in_disjoint_slices by blast
      have c'_sp: "\<not> in_slice (fst sp) c'"
        using dj_sp ns(1) cc(2) in_disjoint_slices
        by (metis slices_disjoint_def)
      have c'_rest: "\<forall>s \<in> set rest. \<not> in_slice (fst s) c'"
        using dj_rest ns(1) cc(2) in_disjoint_slices
        by (metis slices_disjoint_def)
      have "(\<Sum>r<N. M' ! r ! c * M' ! r ! c')
          = (\<Sum>r<N. X1 ! r ! (c - fst (fst sp)) * M ! r ! c')"
      proof (intro sum.cong refl)
        fix r assume "r \<in> {..<N}"
        then have r: "r < N" by simp
        have "M' ! r ! c = X1 ! r ! (c - fst (fst sp))"
          using frame_rest [OF cp c_rest r] M1_entry [OF r cp] cc(1) by simp
        moreover have "M' ! r ! c' = M ! r ! c'"
          using frame_rest [OF c'p c'_rest r] M1_entry [OF r c'p] c'_sp by simp
        ultimately show "M' ! r ! c * M' ! r ! c' = X1 ! r ! (c - fst (fst sp)) * M ! r ! c'"
          by simp
      qed
      also have "\<dots> = 0"
        using orthogonalize_step_orthogonal
                [OF C X1 Cons.prems(2,3) wf_sp wf_sel Cons.prems(8) sel cc] .
      finally show ?thesis .
    qed
    have orth_rest: "(\<Sum>r<N. M' ! r ! c * M' ! r ! c') = 0"
      if "s \<in> set rest" "ns \<in> set non_splines" "set (snd ns) \<subseteq> set (snd s)"
        "in_slice (fst s) c" "in_slice (fst ns) c'" for s ns c c'
      using IH that by blast
    have shM': "has_shape N p M'" using IH by blast
    show ?thesis
      using shM' frame orth_sp orth_rest by auto
  qed
qed

text \<open>
  C6. After orthogonalization, every column of a smooth term has inner product zero, in
  exact arithmetic, and so of magnitude below 0.01, with every column of every non-smooth
  term whose feature set is a subset of the smooth term's; the columns outside the smooth
  terms' slices are as before. \<^verbatim>\<open>np.linalg.qr\<close> is assumed to return a matrix \<open>Q\<close> with
  orthonormal columns and \<open>R\<close> with \<open>C = Q R\<close>; the slices lie within the matrix, those of
  smooth terms overlap neither each other nor those of non-smooth terms.
\<close>

theorem smooth_columns_orthogonal_to_contained_terms:
  assumes "orthogonalize_spline_wrt_non_splines la M spline_info non_spline_info = Inr M'"
    and "splines = zip (list_of_slices spline_info) (list_of_input_features spline_info)"
    and "non_splines
           = zip (list_of_slices non_spline_info) (list_of_input_features non_spline_info)"
    and "has_shape N p M" and "0 < N"
    and "\<forall>s \<in> set splines. fst (fst s) \<le> snd (fst s) \<and> snd (fst s) \<le> p"
    and "\<forall>ns \<in> set non_splines. fst (fst ns) \<le> snd (fst ns) \<and> snd (fst ns) \<le> p"
    and "\<forall>s \<in> set splines. \<forall>ns \<in> set non_splines. slices_disjoint (fst s) (fst ns)"
    and "sorted_wrt (\<lambda>s t. slices_disjoint (fst s) (fst t)) splines"
    and "\<forall>C Q R. qr la C = Inr (Q, R) \<longrightarrow> is_qr C Q R"
  shows "has_shape N p M'
       \<and> (\<forall>c < p. (\<forall>s \<in> set splines. \<not> in_slice (fst s) c) \<longrightarrow> column M' c = column M c)
       \<and> (\<forall>s \<in> set splines. \<forall>ns \<in> set non_splines. set (snd ns) \<subseteq> set (snd s) \<longrightarrow>
            (\<forall>c c'. in_slice (fst s) c \<and> in_slice (fst ns) c' \<longrightarrow>
               dot (column M' c) (column M' c') = 0
               \<and> \<bar>dot (column M' c) (column M' c')\<bar> < 1 / 100))"
proof -
  have run: "orthogonalize_loop la splines non_splines M = Inr M'"
    using assms(1,2,3) by (simp add: orthogonalize_spline_wrt_non_splines_def)
  note spec = orthogonalize_loop_spec [OF run assms(4-10)]
  have shM': "has_shape N p M'" using spec by blast
  have lens: "length M = N" "length M' = N"
    using assms(4) shM' by (simp_all add: has_shape_def)
  have frame: "column M' c = column M c"
    if "c < p" "\<forall>s \<in> set splines. \<not> in_slice (fst s) c" for c
  proof -
    have "\<forall>r < N. M' ! r ! c = M ! r ! c" using spec that by blast
    then show ?thesis by (intro nth_equalityI) (simp_all add: column_def lens)
  qed
  have orth: "dot (column M' c) (column M' c') = 0"
    if "s \<in> set splines" "ns \<in> set non_splines" "set (snd ns) \<subseteq> set (snd s)"
      "in_slice (fst s) c" "in_slice (fst ns) c'" for s ns c c'
  proof -
    have "(\<Sum>r<N. M' ! r ! c * M' ! r ! c') = 0" using spec that by blast
    then show ?thesis by (simp add: dot_columns [OF lens(2) lens(2)])
  qed
  show ?thesis using shM' frame orth by auto
qed

lemma qr_ref: "qr lib_qr_ref C =
    (if C = [[1, 1], [1, - 1], [1, 1], [1, - 1]]
     then Inr ([[- 1 / 2, - 1 / 2], [- 1 / 2, 1 / 2], [- 1 / 2, - 1 / 2], [- 1 / 2, 1 / 2]],
               [[- 2, 0], [0, - 2]])
     else Inl LinAlgError)"
  by (simp add: lib_qr_ref_def)

lemma qr_ref_contract: "\<forall>C Q R. qr lib_qr_ref C = Inr (Q, R) \<longrightarrow> is_qr C Q R"
  by (auto simp: qr_ref is_qr_def has_shape_def shape1_def lessThan_Suc numeral_eq_Suc
      less_Suc_eq split: if_splits)

lemma orthogonalize_ref:
  "orthogonalize_spline_wrt_non_splines lib_qr_ref sm_ref spline_info_ref non_spline_info_ref
     = Inr [[1, 1, 1, - 1], [1, - 1, 0, - 3 / 2], [1, 1, 0, 1], [1, - 1, 0, 3 / 2]]"
proof -
  have cols: "iloc_cols sm_ref (0, 1) = [[1], [1], [1], [1]]"
    "iloc_cols sm_ref (1, 2) = [[1], [- 1], [1], [- 1]]"
    "iloc_cols sm_ref (3, 4) = [[1], [2], [3], [5]]"
    by (simp_all add: iloc_cols_def sm_ref_def)
  have C: "concatenate_axis1 [[[1], [1], [1], [1]], [[1], [- 1], [1], [- 1]]]
      = Inr [[1, 1], [1, - 1], [1, 1], [1, - 1]]"
    by (simp add: concatenate_axis1_def shape0_def upt_rec [of 0] numeral_eq_Suc)
  have X: "orthogonalize lib_qr_ref [[1, 1], [1, - 1], [1, 1], [1, - 1]] [[1], [2], [3], [5]]
      = Inr [[- 1], [- 3 / 2], [1], [3 / 2]]"
    by (simp add: orthogonalize_def qr_ref matmul_def mat_T_def mat_sub_def shape0_def shape1_def
        upt_rec [of 0] numeral_eq_Suc)
  have S: "set_iloc_cols sm_ref (3, 4) [[- 1], [- 3 / 2], [1], [3 / 2]]
      = Inr [[1, 1, 1, - 1], [1, - 1, 0, - 3 / 2], [1, 1, 0, 1], [1, - 1, 0, 3 / 2]]"
    by (simp add: set_iloc_cols_def sm_ref_def shape0_def shape1_def upt_rec [of 0] numeral_eq_Suc)
  show ?thesis
    using cols C X S
    by (simp add: orthogonalize_spline_wrt_non_splines_def spline_info_ref_def
        non_spline_info_ref_def)
qed

theorem smooth_columns_orthogonal_to_contained_terms_witness:
  "orthogonalize_spline_wrt_non_splines lib_qr_ref sm_ref spline_info_ref non_spline_info_ref
     = Inr [[1, 1, 1, - 1], [1, - 1, 0, - 3 / 2], [1, 1, 0, 1], [1, - 1, 0, 3 / 2]]
   \<and> has_shape 4 4 sm_ref
   \<and> has_shape 4 4 [[1, 1, 1, - 1], [1, - 1, 0, - 3 / 2], [1, 1, 0, 1], [1, - 1, 0, 3 / 2]]
   \<and> dot (column [[1, 1, 1, - 1], [1, - 1, 0, - 3 / 2], [1, 1, 0, 1], [1, - 1, 0, 3 / 2]] 3)
          (column [[1, 1, 1, - 1], [1, - 1, 0, - 3 / 2], [1, 1, 0, 1], [1, - 1, 0, 3 / 2]] 0) = 0
   \<and> dot (column [[1, 1, 1, - 1], [1, - 1, 0, - 3 / 2], [1, 1, 0, 1], [1, - 1, 0, 3 / 2]] 3)
          (column [[1, 1, 1, - 1], [1, - 1, 0, - 3 / 2], [1, 1, 0, 1], [1, - 1, 0, 3 / 2]] 1) = 0
   \<and> dot (column [[1, 1, 1, - 1], [1, - 1, 0, - 3 / 2], [1, 1, 0, 1], [1, - 1, 0, 3 / 2]] 3)
          (column [[1, 1, 1, - 1], [1, - 1, 0, - 3 / 2], [1, 1, 0, 1], [1, - 1, 0, 3 / 2]] 2) = - 1
   \<and> column [[1, 1, 1, - 1], [1, - 1, 0, - 3 / 2], [1, 1, 0, 1], [1, - 1, 0, 3 / 2]] 2
       = column sm_ref 2"
proof -
  let ?M' = "[[1, 1, 1, - 1], [1, - 1, 0, - 3 / 2], [1, 1, 0, 1], [1, - 1, 0, 3 / 2 :: real]]"
  let ?splines = "zip (list_of_slices spline_info_ref) (list_of_input_features spline_info_ref)"
  let ?non_splines =
    "zip (list_of_slices non_spline_info_ref) (list_of_input_features non_spline_info_ref)"
  have sh: "has_shape 4 4 sm_ref" by (simp add: has_shape_def sm_ref_def)
  have wfs: "\<forall>s \<in> set ?splines. fst (fst s) \<le> snd (fst s) \<and> snd (fst s) \<le> 4"
    by (simp add: spline_info_ref_def)
  have wfn: "\<forall>ns \<in> set ?non_splines. fst (fst ns) \<le> snd (fst ns) \<and> snd (fst ns) \<le> 4"
    by (simp add: non_spline_info_ref_def)
  have dj: "\<forall>s \<in> set ?splines. \<forall>ns \<in> set ?non_splines. slices_disjoint (fst s) (fst ns)"
    by (simp add: spline_info_ref_def non_spline_info_ref_def slices_disjoint_def)
  have djs: "sorted_wrt (\<lambda>s t. slices_disjoint (fst s) (fst t)) ?splines"
    by (simp add: spline_info_ref_def)
  have T: "has_shape 4 4 ?M'
       \<and> (\<forall>c < 4. (\<forall>s \<in> set ?splines. \<not> in_slice (fst s) c)
              \<longrightarrow> column ?M' c = column sm_ref c)
       \<and> (\<forall>s \<in> set ?splines. \<forall>ns \<in> set ?non_splines. set (snd ns) \<subseteq> set (snd s) \<longrightarrow>
            (\<forall>c c'. in_slice (fst s) c \<and> in_slice (fst ns) c' \<longrightarrow>
               dot (column ?M' c) (column ?M' c') = 0
               \<and> \<bar>dot (column ?M' c) (column ?M' c')\<bar> < 1 / 100))"
    by (rule smooth_columns_orthogonal_to_contained_terms
          [OF orthogonalize_ref refl refl sh _ wfs wfn dj djs qr_ref_contract]) simp
  have sp: "((3, 4), [''x1'']) \<in> set ?splines" by (simp add: spline_info_ref_def)
  have n0: "((0, 1), []) \<in> set ?non_splines" and n1: "((1, 2), [''x1'']) \<in> set ?non_splines"
    by (simp_all add: non_spline_info_ref_def)
  have d0: "dot (column ?M' 3) (column ?M' 0) = 0"
  proof -
    have "set (snd ((0 :: nat, 1 :: nat), [] :: string list)) \<subseteq> set (snd ((3 :: nat, 4 :: nat), [''x1'']))"
      "in_slice (fst ((3, 4), [''x1''])) 3" "in_slice (fst ((0, 1), [] :: string list)) 0"
      by (simp_all add: in_slice_def)
    with T sp n0 show ?thesis by blast
  qed
  have d1: "dot (column ?M' 3) (column ?M' 1) = 0"
  proof -
    have "set (snd ((1 :: nat, 2 :: nat), [''x1''])) \<subseteq> set (snd ((3 :: nat, 4 :: nat), [''x1'']))"
      "in_slice (fst ((3, 4), [''x1''])) 3" "in_slice (fst ((1, 2), [''x1''])) 1"
      by (simp_all add: in_slice_def)
    with T sp n1 show ?thesis by blast
  qed
  have c2: "column ?M' 2 = column sm_ref 2"
  proof -
    have "\<forall>s \<in> set ?splines. \<not> in_slice (fst s) 2"
      by (simp add: spline_info_ref_def in_slice_def)
    with T show ?thesis by simp
  qed
  have d2: "dot (column ?M' 3) (column ?M' 2) = - 1"
    by (simp add: dot_def column_def)
  show ?thesis
    using orthogonalize_ref sh T d0 d1 d2 c2 by simp
qed

section \<open>The round trip of the solver\<close>

text \<open>
  Where the solver returns a \<open>\<lambda>\<close> for a target df (a target below the number of singular
  values, which the rank check ensures for a rank that is at most the number of columns),
  it returns the target itself as df, and solving in the other direction, from that
  \<open>\<lambda>\<close> to df, gives the target back within \<open>sqrt machine_epsilon\<close>, which is below
  \<open>1e-4\<close>.
\<close>

theorem solver_round_trip:
  assumes "df2lambda la dm P0 (Some df) None hat1 lam_max = Inr (df', lam)"
    and "df2lambda_singular_values la dm P0 = Inr d" and "df < real (length d)"
    and "lam \<noteq> 0"
  shows "df' = df
       \<and> (\<exists>v. df2lambda la dm P0 None (Some lam) hat1 lam_max' = Inr (v, lam)
              \<and> \<bar>v - df\<bar> \<le> sqrt machine_epsilon \<and> \<bar>v - df\<bar> < 1 / 10 ^ 4)"
proof -
  have solve: "df2lambda_solve la d df hat1 lam_max = Inr (df', lam)"
    using assms(1,2) by (auto simp: df2lambda_def split: sum.splits if_splits)
  from solve_round_trip [OF solve assms(3)]
  obtain v where v: "df' = df" "dfFun lam d hat1 = Inr v" "\<bar>v - df\<bar> \<le> sqrt machine_epsilon"
    by blast
  have "\<bar>v - df\<bar> < 1 / 10 ^ 4"
    using v(3) sqrt_machine_epsilon_small by (simp add: field_simps)
  moreover have "df2lambda la dm P0 None (Some lam) hat1 lam_max' = Inr (v, lam)"
    using assms(2,4) v(2) by (simp add: df2lambda_def)
  ultimately show ?thesis using v by blast
qed

theorem solver_round_trip_witness:
  "df2lambda lib_ref basis_ref penalty_ref (Some (5 / 2)) None True (10 ^ 15)
     = Inr (5 / 2, lam_ref)
   \<and> df2lambda_singular_values lib_ref basis_ref penalty_ref = Inr singular_ref
   \<and> lam_ref \<noteq> 0
   \<and> (\<exists>v. df2lambda lib_ref basis_ref penalty_ref None (Some lam_ref) True (10 ^ 15)
              = Inr (v, lam_ref)
          \<and> \<bar>v - 5 / 2\<bar> < 1 / 10 ^ 4)"
proof -
  have d: "df2lambda_singular_values lib_ref basis_ref penalty_ref = Inr singular_ref"
    by (rule singular_values_ref [OF gram_of_basis])
  have len: "5 / 2 < real (length singular_ref)" by (simp add: singular_ref_def)
  have nz: "lam_ref \<noteq> 0" by (simp add: lam_ref_def)
  from solver_round_trip [OF df2lambda_ref(1) d len nz, of "10 ^ 15"] df2lambda_ref(1) d nz
  show ?thesis by auto
qed

end
